theory Spec2Isabelle
  imports Main "HOL-Library.AList"
begin

section \<open>The routing core of \<^verbatim>\<open>router/router.py\<close>\<close>

text \<open>
  Python strings are modelled as \<^typ>\<open>string\<close> (lists of 8-bit code points), Python
  exceptions as values of the datatype \<open>error\<close> returned in \<open>Inl\<close>, ordered dictionaries
  as association lists in insertion order, and the objects that the program mutates
  (the route list of \<^verbatim>\<open>RouteSet\<close>, the default route of every \<^verbatim>\<open>RouteSet\<close> instance)
  as fields of an explicit program state.
\<close>

subsection \<open>String operations of the Python runtime\<close>

text \<open>
  \<^verbatim>\<open>s.split(sep)\<close> for a one-character separator. The result is never empty, so the
  second case of the inner \<open>case\<close> is never taken (lemma \<open>str_split_not_Nil\<close>).
\<close>

primrec str_split :: "char \<Rightarrow> string \<Rightarrow> string list" where
  "str_split sep [] = [[]]"
| "str_split sep (c # cs) =
     (if c = sep then [] # str_split sep cs
      else (case str_split sep cs of
              x # xs \<Rightarrow> (c # x) # xs
            | [] \<Rightarrow> [[c]]))"

text \<open>\<^verbatim>\<open>sep.join(xs)\<close>.\<close>

fun str_join :: "string \<Rightarrow> string list \<Rightarrow> string" where
  "str_join sep [] = []"
| "str_join sep [x] = x"
| "str_join sep (x # y # ys) = x @ sep @ str_join sep (y # ys)"

text \<open>
  Splitting at the last occurrence of a character: the text before it and the text
  after it. This is where a greedy \<^verbatim>\<open>.+\<close> followed by a literal character stops.
\<close>

definition split_last :: "char \<Rightarrow> string \<Rightarrow> (string \<times> string) option" where
  "split_last c s =
     (if c \<in> set s
      then Some (rev (tl (dropWhile (\<lambda>x. x \<noteq> c) (rev s))), rev (takeWhile (\<lambda>x. x \<noteq> c) (rev s)))
      else None)"

subsection \<open>The regular expressions\<close>

text \<open>
  \<^verbatim>\<open>_URL_PARAMS_TYPE_FINDER\<close> is the compiled pattern: an opening angle bracket, an
  optional group made of the named group \<^verbatim>\<open>type\<close> (one or more characters, greedy)
  and a colon, the named group \<^verbatim>\<open>name\<close> (one or more characters, greedy), and a
  closing angle bracket. It is used only through \<^verbatim>\<open>.match\<close>, which anchors the pattern
  at the start of the string and not at its end. A dot matches every character except the
  newline, so the whole match lies in the text before the first newline. Both groups are
  greedy: the name ends at the last closing bracket of that text, and the type, when the
  optional group takes part, ends at the last colon that leaves at least one character on
  either side. The result is the pair of the groups \<^verbatim>\<open>type\<close> (absent when the group
  does not take part) and \<^verbatim>\<open>name\<close>, or \<open>None\<close> when there is no match.
\<close>

definition URL_PARAMS_TYPE_FINDER_match :: "string \<Rightarrow> (string option \<times> string) option" where
  "URL_PARAMS_TYPE_FINDER_match s =
     (case s of
        [] \<Rightarrow> None
      | c # rest \<Rightarrow>
          if c \<noteq> CHR ''<'' then None
          else (case split_last (CHR ''>'') (takeWhile (\<lambda>x. x \<noteq> CHR 0x0A) rest) of
                  None \<Rightarrow> None
                | Some (body, after) \<Rightarrow>
                    if body = [] then None
                    else (case split_last (CHR '':'') (butlast (tl body)) of
                            None \<Rightarrow> Some (None, body)
                          | Some (a, b) \<Rightarrow> Some (Some (hd body # a), b @ [last body]))))"

text \<open>
  \<^verbatim>\<open>_URL_PARAMS_FINDER\<close> is the compiled pattern: an opening angle bracket, one or
  more characters taken lazily, and a closing angle bracket. It is used only through
  \<^verbatim>\<open>.findall\<close>: the non-overlapping matches from left to right. A match starts at an
  opening bracket, takes one character that is not a newline, and then runs lazily to the
  first closing bracket that comes before any newline. \<open>scan_to_gt\<close> is that lazy run:
  the characters up to the first closing bracket and the text after it.
\<close>

fun scan_to_gt :: "string \<Rightarrow> (string \<times> string) option" where
  "scan_to_gt [] = None"
| "scan_to_gt (c # cs) =
     (if c = CHR ''>'' then Some ([], cs)
      else if c = CHR 0x0A then None
      else (case scan_to_gt cs of
              None \<Rightarrow> None
            | Some (tok, rest) \<Rightarrow> Some (c # tok, rest)))"

fun lazy_token :: "string \<Rightarrow> (string \<times> string) option" where
  "lazy_token [] = None"
| "lazy_token (x # ys) =
     (if x = CHR 0x0A then None
      else (case scan_to_gt ys of
              None \<Rightarrow> None
            | Some (tok, rest) \<Rightarrow> Some (x # tok, rest)))"

lemma scan_to_gt_shorter: "scan_to_gt cs = Some (tok, rest) \<Longrightarrow> length rest < length cs"
  by (induction cs arbitrary: tok rest) (auto split: if_splits option.splits)

lemma lazy_token_shorter: "lazy_token cs = Some (tok, rest) \<Longrightarrow> length rest < length cs"
  by (cases cs) (auto split: if_splits option.splits dest: scan_to_gt_shorter)

function URL_PARAMS_FINDER_findall :: "string \<Rightarrow> string list" where
  "URL_PARAMS_FINDER_findall [] = []"
| "URL_PARAMS_FINDER_findall (c # cs) =
     (if c = CHR ''<''
      then (case lazy_token cs of
              None \<Rightarrow> URL_PARAMS_FINDER_findall cs
            | Some (tok, rest) \<Rightarrow> (CHR ''<'' # tok @ ''>'') # URL_PARAMS_FINDER_findall rest)
      else URL_PARAMS_FINDER_findall cs)"
  by pat_completeness auto
termination
  by (relation "measure length") (auto dest: lazy_token_shorter)

subsection \<open>The converters \<^verbatim>\<open>int\<close>, \<open>float\<close> and \<open>str\<close>\<close>

text \<open>
  \<^verbatim>\<open>int(s)\<close> on a string, in base 10, as CPython reads it: white space around the
  number is dropped, one sign may follow, then decimal digits, where a single underscore
  may stand between two digits. \<open>None\<close> stands for the \<^verbatim>\<open>ValueError\<close> it raises
  otherwise, also for a number of more than 4300 digits (the interpreter's default limit).
\<close>

definition int_whitespace :: "char \<Rightarrow> bool" where
  "int_whitespace c =
     (c \<in> set [CHR 0x09, CHR 0x0A, CHR 0x0B, CHR 0x0C, CHR 0x0D, CHR 0x20, CHR 0x85, CHR 0xA0])"

definition str_strip :: "string \<Rightarrow> string" where
  "str_strip s = rev (dropWhile int_whitespace (rev (dropWhile int_whitespace s)))"

definition digit_of :: "char \<Rightarrow> nat option" where
  "digit_of c =
     map_of [(CHR ''0'', 0), (CHR ''1'', 1), (CHR ''2'', 2), (CHR ''3'', 3), (CHR ''4'', 4),
             (CHR ''5'', 5), (CHR ''6'', 6), (CHR ''7'', 7), (CHR ''8'', 8), (CHR ''9'', 9)] c"

fun int_digits :: "string \<Rightarrow> nat list option" where
  "int_digits [] = None"
| "int_digits [c] = map_option (\<lambda>d. [d]) (digit_of c)"
| "int_digits (c # u # cs) =
     (case digit_of c of
        None \<Rightarrow> None
      | Some d \<Rightarrow> map_option ((#) d) (int_digits (if u = CHR ''_'' then cs else u # cs)))"

definition py_int :: "string \<Rightarrow> int option" where
  "py_int s =
     (let t = str_strip s;
          negative = (t \<noteq> [] \<and> hd t = CHR ''-'');
          body = (if t \<noteq> [] \<and> (hd t = CHR ''-'' \<or> hd t = CHR ''+'') then tl t else t)
      in case int_digits body of
           None \<Rightarrow> None
         | Some ds \<Rightarrow>
             if 4300 < length ds then None
             else Some ((if negative then - 1 else 1) * int (foldl (\<lambda>a d. 10 * a + d) 0 ds)))"

text \<open>
  The typed value of a parameter: an integer, a float or a string. Floats are values of a
  type \<open>'f\<close> that is left open, and the two library functions whose results the model
  does not compute are parameters: \<^verbatim>\<open>float(s)\<close> and \<^verbatim>\<open>urllib.parse.urljoin(base, url)\<close>.
  In both, \<open>None\<close> stands for a raised \<^verbatim>\<open>ValueError\<close>.
\<close>

datatype 'f pyval = PyInt int | PyFloat 'f | PyStr string

record 'f stdlib =
  py_float :: "string \<Rightarrow> 'f option"
  urljoin :: "string \<Rightarrow> string \<Rightarrow> string option"

text \<open>
  \<^verbatim>\<open>UrlParamFormatter\<close> holds one of the three converters; \<^verbatim>\<open>convert\<close> calls it
  (\<open>None\<close>: it raised \<^verbatim>\<open>ValueError\<close>), \<^verbatim>\<open>is_convertable\<close> catches that error.
\<close>

datatype UrlParamFormatter = Conv_int | Conv_float | Conv_str

definition convert :: "'f stdlib \<Rightarrow> UrlParamFormatter \<Rightarrow> string \<Rightarrow> 'f pyval option" where
  "convert lib f v =
     (case f of
        Conv_int \<Rightarrow> map_option PyInt (py_int v)
      | Conv_float \<Rightarrow> map_option PyFloat (py_float lib v)
      | Conv_str \<Rightarrow> Some (PyStr v))"

definition is_convertable :: "'f stdlib \<Rightarrow> UrlParamFormatter \<Rightarrow> string \<Rightarrow> bool" where
  "is_convertable lib f v = (case convert lib f v of None \<Rightarrow> False | Some x \<Rightarrow> True)"

text \<open>
  \<^verbatim>\<open>_PARAM_TYPE_MAPPER = defaultdict(lambda: str, {"int": int, "float": float})\<close>, looked
  up with the group \<^verbatim>\<open>type\<close>, which is absent when the placeholder has no type.
\<close>

definition PARAM_TYPE_MAPPER :: "string option \<Rightarrow> UrlParamFormatter" where
  "PARAM_TYPE_MAPPER param_type =
     (if param_type = Some ''int'' then Conv_int
      else if param_type = Some ''float'' then Conv_float
      else Conv_str)"

subsection \<open>Exceptions and dictionaries\<close>

text \<open>
  \<open>LibraryValueError\<close> is a \<^verbatim>\<open>ValueError\<close> raised inside \<^verbatim>\<open>int\<close>, \<^verbatim>\<open>float\<close> or
  \<^verbatim>\<open>urljoin\<close>; \<open>ValueError\<close> carries the message of the two \<^verbatim>\<open>raise ValueError\<close> of
  \<^verbatim>\<open>Router.add_route\<close>; \<open>KeyError\<close> carries the missing key; \<open>AttributeError\<close> is
  \<^verbatim>\<open>param.group\<close> on a \<^verbatim>\<open>param\<close> that is \<^verbatim>\<open>None\<close>.
\<close>

datatype error = UrlFormatError | ValueError string | LibraryValueError | KeyError string
  | AttributeError

text \<open>\<^verbatim>\<open>d[k] = v\<close> on a dictionary kept in insertion order.\<close>

definition dict_set :: "('k \<times> 'v) list \<Rightarrow> 'k \<Rightarrow> 'v \<Rightarrow> ('k \<times> 'v) list" where
  "dict_set d k v = AList.update k v d"

subsection \<open>The functions on URL formats\<close>

fun parse_url_loop ::
  "(string \<times> string) list \<Rightarrow> (string \<times> string) list \<Rightarrow> error + (string \<times> string) list" where
  "parse_url_loop [] params_dict = Inr params_dict"
| "parse_url_loop ((format_part, request_part) # rest) params_dict =
     (if format_part = request_part then parse_url_loop rest params_dict
      else (case URL_PARAMS_TYPE_FINDER_match format_part of
              None \<Rightarrow> Inl UrlFormatError
            | Some (param_type, name) \<Rightarrow>
                parse_url_loop rest (dict_set params_dict name request_part)))"

definition parse_url :: "string \<Rightarrow> string \<Rightarrow> error + (string \<times> string) list" where
  "parse_url url_format url =
     (let url_format_list = str_split CHR ''/'' url_format;
          url_list = str_split CHR ''/'' url
      in if length url_format_list = length url_list
         then parse_url_loop (zip url_format_list url_list) []
         else Inl UrlFormatError)"

fun required_params_loop ::
  "string list \<Rightarrow> (string \<times> UrlParamFormatter) list \<Rightarrow> error + (string \<times> UrlParamFormatter) list" where
  "required_params_loop [] params_formatters = Inr params_formatters"
| "required_params_loop (param # rest) params_formatters =
     (case URL_PARAMS_TYPE_FINDER_match param of
        None \<Rightarrow> Inl AttributeError
      | Some (param_type, name) \<Rightarrow>
          required_params_loop rest
            (dict_set params_formatters name (PARAM_TYPE_MAPPER param_type)))"

definition from_url_get_required_params ::
  "string \<Rightarrow> error + (string \<times> UrlParamFormatter) list" where
  "from_url_get_required_params url_format =
     required_params_loop (URL_PARAMS_FINDER_findall url_format) []"

fun required_names_loop :: "string list \<Rightarrow> error + string list" where
  "required_names_loop [] = Inr []"
| "required_names_loop (param # rest) =
     (case URL_PARAMS_TYPE_FINDER_match param of
        None \<Rightarrow> Inl AttributeError
      | Some (param_type, name) \<Rightarrow>
          (case required_names_loop rest of
             Inl e \<Rightarrow> Inl e
           | Inr names \<Rightarrow> Inr (name # names)))"

definition from_url_get_required_params_names :: "string \<Rightarrow> error + string list" where
  "from_url_get_required_params_names url_format =
     required_names_loop (URL_PARAMS_FINDER_findall url_format)"

subsection \<open>Routes\<close>

text \<open>
  Modelled from the spec: \<^verbatim>\<open>http_utils.HttpMethod\<close> is imported by the router and is not
  among the sources; the spec gives the verbs GET and POST.
\<close>

datatype HttpMethod = GET | POST

text \<open>
  The three concrete classes below \<^verbatim>\<open>Route\<close>, with the attributes their constructors
  set. Handlers are values of an open type \<open>'h\<close>. A \<^verbatim>\<open>SimpleRoute\<close> or
  \<^verbatim>\<open>NestedRoute\<close> is never changed after its construction, so a nested route holds
  its mapped route as a value.
\<close>

datatype 'h Route =
    SimpleRoute (mapped_url: string) (accepted_methods: "HttpMethod list")
      (reqired_url_params: "(string \<times> UrlParamFormatter) list") (handler: 'h)
  | DefaultRoute (mapped_url: string) (accepted_methods: "HttpMethod list")
      (reqired_url_params: "(string \<times> UrlParamFormatter) list") (handler: 'h)
  | NestedRoute (mapped_url: string) (accepted_methods: "HttpMethod list")
      (mapped_route: "'h Route") (default_url_params_str: string)

text \<open>\<^verbatim>\<open>Route.__eq__\<close>, on two routes: the URLs and the lists of methods are compared.\<close>

definition Route_eq :: "'h Route \<Rightarrow> 'h Route \<Rightarrow> bool" where
  "Route_eq self other =
     (mapped_url self = mapped_url other \<and> accepted_methods self = accepted_methods other)"

definition validate_method :: "'h Route \<Rightarrow> HttpMethod \<Rightarrow> bool" where
  "validate_method self method = (method \<in> set (accepted_methods self))"

definition SimpleRoute_init :: "string \<Rightarrow> 'h \<Rightarrow> HttpMethod list \<Rightarrow> error + 'h Route" where
  "SimpleRoute_init url h methods =
     (case from_url_get_required_params url of
        Inl e \<Rightarrow> Inl e
      | Inr formatters \<Rightarrow> Inr (SimpleRoute url methods formatters h))"

definition DefaultRoute_init :: "string \<Rightarrow> 'h \<Rightarrow> error + 'h Route" where
  "DefaultRoute_init url h =
     (case from_url_get_required_params url of
        Inl e \<Rightarrow> Inl e
      | Inr formatters \<Rightarrow> Inr (DefaultRoute url [] formatters h))"

text \<open>
  The generator expression of \<^verbatim>\<open>NestedRoute.__init__\<close>. The dictionary of default
  parameters is read only through \<^verbatim>\<open>str(default_url_params[name])\<close> and through its
  keys, so it is modelled with the rendered strings as its values.
\<close>

definition NestedRoute_init ::
  "string \<Rightarrow> 'h Route \<Rightarrow> HttpMethod list \<Rightarrow> (string \<times> string) list \<Rightarrow> error + 'h Route" where
  "NestedRoute_init url mapped methods default_url_params =
     (case from_url_get_required_params_names (mapped_url mapped) of
        Inl e \<Rightarrow> Inl e
      | Inr names \<Rightarrow>
          Inr (NestedRoute url methods mapped
                 (str_join ''/''
                    (concat (map (\<lambda>param_name.
                       case map_of default_url_params param_name of
                         None \<Rightarrow> []
                       | Some v \<Rightarrow> [v]) names)))))"

text \<open>
  \<^verbatim>\<open>all(formatters[key].is_convertable(value) for key, value in items)\<close>: it stops at
  the first value that is not convertible, and a key without formatter raises.
\<close>

fun all_is_convertable ::
  "'f stdlib \<Rightarrow> (string \<times> UrlParamFormatter) list \<Rightarrow> (string \<times> string) list \<Rightarrow> error + bool" where
  "all_is_convertable lib formatters [] = Inr True"
| "all_is_convertable lib formatters ((key, v) # rest) =
     (case map_of formatters key of
        None \<Rightarrow> Inl (KeyError key)
      | Some f \<Rightarrow>
          if is_convertable lib f v then all_is_convertable lib formatters rest
          else Inr False)"

definition SimpleRoute_validate_url ::
  "'f stdlib \<Rightarrow> string \<Rightarrow> (string \<times> UrlParamFormatter) list \<Rightarrow> string \<Rightarrow> error + bool" where
  "SimpleRoute_validate_url lib url_format formatters url =
     (case parse_url url_format url of
        Inl e \<Rightarrow> if e = UrlFormatError then Inr False else Inl e
      | Inr params \<Rightarrow> all_is_convertable lib formatters params)"

text \<open>The dictionary comprehension of \<^verbatim>\<open>SimpleRoute.parse_url\<close>.\<close>

fun convert_items ::
  "'f stdlib \<Rightarrow> (string \<times> UrlParamFormatter) list \<Rightarrow> (string \<times> string) list \<Rightarrow>
     (string \<times> 'f pyval) list \<Rightarrow> error + (string \<times> 'f pyval) list" where
  "convert_items lib formatters [] typed = Inr typed"
| "convert_items lib formatters ((key, v) # rest) typed =
     (case map_of formatters key of
        None \<Rightarrow> Inl (KeyError key)
      | Some f \<Rightarrow>
          (case convert lib f v of
             None \<Rightarrow> Inl LibraryValueError
           | Some x \<Rightarrow> convert_items lib formatters rest (dict_set typed key x)))"

definition SimpleRoute_parse_url ::
  "'f stdlib \<Rightarrow> string \<Rightarrow> (string \<times> UrlParamFormatter) list \<Rightarrow> 'h \<Rightarrow> string \<Rightarrow>
     error + 'h \<times> (string \<times> 'f pyval) list option" where
  "SimpleRoute_parse_url lib url_format formatters h url =
     (case parse_url url_format url of
        Inl e \<Rightarrow> Inl e
      | Inr params \<Rightarrow>
          (case convert_items lib formatters params [] of
             Inl e \<Rightarrow> Inl e
           | Inr typed \<Rightarrow> Inr (h, Some typed)))"

text \<open>
  The methods \<^verbatim>\<open>validate_url\<close> and \<^verbatim>\<open>parse_url\<close>, dispatched on the class of the
  route. \<^verbatim>\<open>DefaultRoute\<close> inherits \<^verbatim>\<open>validate_url\<close> and overrides \<^verbatim>\<open>parse_url\<close>;
  \<^verbatim>\<open>NestedRoute\<close> hands \<^verbatim>\<open>urljoin(url + "/", suffix)\<close> to its mapped route.
\<close>

fun validate_url :: "'f stdlib \<Rightarrow> 'h Route \<Rightarrow> string \<Rightarrow> error + bool" where
  "validate_url lib (SimpleRoute url_format methods formatters h) url =
     SimpleRoute_validate_url lib url_format formatters url"
| "validate_url lib (DefaultRoute url_format methods formatters h) url =
     SimpleRoute_validate_url lib url_format formatters url"
| "validate_url lib (NestedRoute url_format methods mapped suffix) url =
     (case urljoin lib (url @ ''/'') suffix of
        None \<Rightarrow> Inl LibraryValueError
      | Some joined \<Rightarrow> validate_url lib mapped joined)"

fun Route_parse_url ::
  "'f stdlib \<Rightarrow> 'h Route \<Rightarrow> string \<Rightarrow> error + 'h \<times> (string \<times> 'f pyval) list option" where
  "Route_parse_url lib (SimpleRoute url_format methods formatters h) url =
     SimpleRoute_parse_url lib url_format formatters h url"
| "Route_parse_url lib (DefaultRoute url_format methods formatters h) url = Inr (h, None)"
| "Route_parse_url lib (NestedRoute url_format methods mapped suffix) url =
     (case urljoin lib (url @ ''/'') suffix of
        None \<Rightarrow> Inl LibraryValueError
      | Some joined \<Rightarrow> Route_parse_url lib mapped joined)"

subsection \<open>The program state, \<^verbatim>\<open>RouteSet\<close> and \<^verbatim>\<open>Router\<close>\<close>

text \<open>
  \<^verbatim>\<open>RouteSet.__all_routes\<close> is an attribute of the class: \<^verbatim>\<open>__init__\<close> assigns only
  \<^verbatim>\<open>__default_route\<close>, and \<^verbatim>\<open>add_route\<close> and \<^verbatim>\<open>get_route\<close> reach the list through
  \<^verbatim>\<open>self.__all_routes\<close>, which finds the list of the class. The state therefore has
  one route list, and one default route for every \<^verbatim>\<open>RouteSet\<close> instance; an instance
  is referred to by its number. A \<^verbatim>\<open>Router\<close> holds its \<^verbatim>\<open>RouteSet\<close> in
  \<^verbatim>\<open>self.routes\<close> and nothing else, so it is referred to by the same number.
\<close>

record 'h program_state =
  all_routes :: "'h Route list"
  default_route :: "'h Route list"

definition initial_state :: "'h program_state" where
  "initial_state = \<lparr>all_routes = [], default_route = []\<rparr>"

definition RouteSet_init :: "'h Route \<Rightarrow> 'h program_state \<Rightarrow> nat \<times> 'h program_state" where
  "RouteSet_init d st =
     (length (default_route st), st\<lparr>default_route := default_route st @ [d]\<rparr>)"

fun set_handler :: "'h \<Rightarrow> 'h Route \<Rightarrow> 'h Route" where
  "set_handler h (SimpleRoute u ms fs h0) = SimpleRoute u ms fs h"
| "set_handler h (DefaultRoute u ms fs h0) = DefaultRoute u ms fs h"
| "set_handler h (NestedRoute u ms r s) = NestedRoute u ms r s"

definition RouteSet_set_default_route_handler ::
  "nat \<Rightarrow> 'h \<Rightarrow> 'h program_state \<Rightarrow> 'h program_state" where
  "RouteSet_set_default_route_handler self default_handler st =
     st\<lparr>default_route :=
          (default_route st)[self := set_handler default_handler (default_route st ! self)]\<rparr>"

primrec contains_equal :: "'h Route list \<Rightarrow> 'h Route \<Rightarrow> bool" where
  "contains_equal [] new_route = False"
| "contains_equal (route # rest) new_route =
     (if Route_eq route new_route then True else contains_equal rest new_route)"

definition RouteSet_add_route ::
  "nat \<Rightarrow> 'h Route \<Rightarrow> 'h program_state \<Rightarrow> bool \<times> 'h program_state" where
  "RouteSet_add_route self new_route st =
     (if contains_equal (all_routes st) new_route then (False, st)
      else (True, st\<lparr>all_routes := all_routes st @ [new_route]\<rparr>))"

text \<open>
  \<^verbatim>\<open>next(filter(lambda x: x.validate_method(method) and x.validate_url(url), routes),
  default)\<close>: the scan of the list, \<open>None\<close> when it is exhausted.
\<close>

fun first_valid ::
  "'f stdlib \<Rightarrow> 'h Route list \<Rightarrow> string \<Rightarrow> HttpMethod \<Rightarrow> error + 'h Route option" where
  "first_valid lib [] url method = Inr None"
| "first_valid lib (x # xs) url method =
     (if validate_method x method
      then (case validate_url lib x url of
              Inl e \<Rightarrow> Inl e
            | Inr ok \<Rightarrow> if ok then Inr (Some x) else first_valid lib xs url method)
      else first_valid lib xs url method)"

definition RouteSet_get_route ::
  "'f stdlib \<Rightarrow> nat \<Rightarrow> string \<Rightarrow> HttpMethod \<Rightarrow> 'h program_state \<Rightarrow> error + 'h Route" where
  "RouteSet_get_route lib self url method st =
     (case first_valid lib (all_routes st) url method of
        Inl e \<Rightarrow> Inl e
      | Inr None \<Rightarrow> Inr (default_route st ! self)
      | Inr (Some route) \<Rightarrow> Inr route)"

definition Router_init :: "'h \<Rightarrow> 'h program_state \<Rightarrow> (error + nat) \<times> 'h program_state" where
  "Router_init default_handler st =
     (case DefaultRoute_init [] default_handler of
        Inl e \<Rightarrow> (Inl e, st)
      | Inr d \<Rightarrow> (case RouteSet_init d st of (self, st') \<Rightarrow> (Inr self, st')))"

definition Router_set_default_handler :: "nat \<Rightarrow> 'h \<Rightarrow> 'h program_state \<Rightarrow> 'h program_state" where
  "Router_set_default_handler self default_handler st =
     RouteSet_set_default_route_handler self default_handler st"

definition Router_get_handler ::
  "'f stdlib \<Rightarrow> nat \<Rightarrow> string \<Rightarrow> HttpMethod \<Rightarrow> 'h program_state \<Rightarrow>
     error + 'h \<times> (string \<times> 'f pyval) list option" where
  "Router_get_handler lib self url method st =
     (case RouteSet_get_route lib self url method st of
        Inl e \<Rightarrow> Inl e
      | Inr route \<Rightarrow> Route_parse_url lib route url)"

text \<open>
  The argument \<^verbatim>\<open>handler\<close> of \<^verbatim>\<open>Router.add_route\<close> is a route object, a callable, or
  any other object; \<^verbatim>\<open>isinstance(handler, SimpleRoute)\<close> holds for a \<^verbatim>\<open>SimpleRoute\<close>
  and for a \<^verbatim>\<open>DefaultRoute\<close>, its subclass. The result is the returned route or the
  raised exception, with the state after the call. \<open>register_route\<close> is the common end
  of the two successful branches: \<^verbatim>\<open>self.routes.add_route(new_route)\<close>, whose boolean
  result is dropped, and \<^verbatim>\<open>return new_route\<close>.
\<close>

datatype 'h handler_arg = RouteObject "'h Route" | Callable 'h | OtherObject

fun isinstance_SimpleRoute :: "'h Route \<Rightarrow> bool" where
  "isinstance_SimpleRoute (SimpleRoute u ms fs h) = True"
| "isinstance_SimpleRoute (DefaultRoute u ms fs h) = True"
| "isinstance_SimpleRoute (NestedRoute u ms r s) = False"

definition register_route ::
  "nat \<Rightarrow> error + 'h Route \<Rightarrow> 'h program_state \<Rightarrow> (error + 'h Route) \<times> 'h program_state" where
  "register_route self built st =
     (case built of
        Inl e \<Rightarrow> (Inl e, st)
      | Inr new_route \<Rightarrow> (Inr new_route, snd (RouteSet_add_route self new_route st)))"

definition Router_add_route ::
  "nat \<Rightarrow> string \<Rightarrow> 'h handler_arg \<Rightarrow> HttpMethod list \<Rightarrow> (string \<times> string) list \<Rightarrow>
     'h program_state \<Rightarrow> (error + 'h Route) \<times> 'h program_state" where
  "Router_add_route self url h methods default_params st =
     (case h of
        RouteObject r \<Rightarrow>
          if isinstance_SimpleRoute r
          then (if default_params = []
                then (Inl (ValueError ''for NestedRoute default_params are required''), st)
                else register_route self (NestedRoute_init url r methods default_params) st)
          else (Inl (ValueError ''routing not implemented for handler of type''), st)
      | Callable f \<Rightarrow> register_route self (SimpleRoute_init url f methods) st
      | OtherObject \<Rightarrow> (Inl (ValueError ''routing not implemented for handler of type''), st))"

subsection \<open>Placeholders as the specification describes them\<close>

text \<open>
  The specification calls a segment a placeholder when it has the form \<^verbatim>\<open><name>\<close> or
  \<^verbatim>\<open><type:name>\<close>, and every other segment a literal. \<open>spec_parse_placeholder\<close> follows
  these words, to be compared with the type finder of the source: the segment opens and
  closes with an angle bracket, and the name and the type are not empty and hold no
  angle bracket, no colon and no newline. The result is the type tag (absent for the
  first form) and the name, or \<open>None\<close> for a literal.
\<close>

definition name_char :: "char \<Rightarrow> bool" where
  "name_char c = (c \<noteq> CHR ''<'' \<and> c \<noteq> CHR ''>'' \<and> c \<noteq> CHR '':'' \<and> c \<noteq> CHR 0x0A)"

definition plain_name :: "string \<Rightarrow> bool" where
  "plain_name s = (s \<noteq> [] \<and> list_all name_char s)"

definition spec_parse_placeholder :: "string \<Rightarrow> (string option \<times> string) option" where
  "spec_parse_placeholder segment =
     (case segment of
        [] \<Rightarrow> None
      | c # rest \<Rightarrow>
          if c = CHR ''<'' \<and> rest \<noteq> [] \<and> last rest = CHR ''>''
          then (let body = butlast rest;
                    type_tag = takeWhile (\<lambda>x. x \<noteq> CHR '':'') body;
                    name = drop (Suc (length type_tag)) body
                in if plain_name body then Some (None, body)
                   else if plain_name type_tag \<and> plain_name name \<and>
                           body = type_tag @ CHR '':'' # name
                        then Some (Some type_tag, name)
                        else None)
          else None)"

subsection \<open>A library instance for the closed examples\<close>

text \<open>
  The closed examples need the two library functions at a few arguments. For a base made
  of one or more groups of a slash and a plain segment, followed by a final slash, and a
  reference that is one plain segment (a non-empty string of ASCII letters, digits,
  underscores and hyphens), \<^verbatim>\<open>urljoin(base, url)\<close> is \<^verbatim>\<open>base + url\<close>: there is no scheme,
  authority, query or fragment, no segment is empty or a dot segment, and the base ends
  in a slash. For all other arguments the instance answers \<open>None\<close>; the examples do not
  call it there. They have no \<^verbatim>\<open>float\<close> placeholder either, so \<^verbatim>\<open>float\<close> is not
  called, and the instance answers \<open>None\<close>.
\<close>

definition plain_segment :: "string \<Rightarrow> bool" where
  "plain_segment s =
     (s \<noteq> [] \<and>
      list_all (\<lambda>c. c \<in> set ''abcdefghijklmnopqrstuvwxyzABCDEFGHIJKLMNOPQRSTUVWXYZ0123456789_-'') s)"

definition plain_directory :: "string \<Rightarrow> bool" where
  "plain_directory base =
     (case str_split CHR ''/'' base of
        [] \<Rightarrow> False
      | first # rest \<Rightarrow>
          first = [] \<and> rest \<noteq> [] \<and> last rest = [] \<and> butlast rest \<noteq> [] \<and>
          list_all plain_segment (butlast rest))"

definition example_urljoin :: "string \<Rightarrow> string \<Rightarrow> string option" where
  "example_urljoin base url =
     (if plain_directory base \<and> plain_segment url then Some (base @ url) else None)"

definition example_lib :: "unit stdlib" where
  "example_lib = \<lparr>py_float = (\<lambda>s. None), urljoin = example_urljoin\<rparr>"

section \<open>Properties\<close>

subsection \<open>The tokens of a URL format always parse\<close>

text \<open>
  Every token that \<open>findall\<close> returns is matched by the type finder, so the
  \<^verbatim>\<open>AttributeError\<close> branch of the two functions that read the placeholders of a URL
  format is never taken: the constructors of the routes cannot fail.
\<close>

lemma str_split_not_Nil: "str_split sep s \<noteq> []"
  by (induction s) (auto split: list.splits)

lemma scan_to_gt_chars:
  "scan_to_gt cs = Some (tok, rest) \<Longrightarrow> CHR ''>'' \<notin> set tok \<and> CHR 0x0A \<notin> set tok"
  by (induction cs arbitrary: tok rest) (auto split: if_splits option.splits)

lemma split_last_snoc: "c \<notin> set t \<Longrightarrow> split_last c (t @ [c]) = Some (t, [])"
  by (simp add: split_last_def)

lemma match_token:
  assumes "x \<noteq> CHR 0x0A" "CHR ''>'' \<notin> set t" "CHR 0x0A \<notin> set t"
  shows "URL_PARAMS_TYPE_FINDER_match (CHR ''<'' # (x # t) @ ''>'') \<noteq> None"
proof -
  have tw: "takeWhile (\<lambda>c. c \<noteq> CHR 0x0A) ((x # t) @ ''>'') = (x # t) @ ''>''"
    using assms by (intro takeWhile_eq_all_conv[THEN iffD2]) auto
  have sl: "split_last (CHR ''>'') ((x # t) @ ''>'') =
      Some (rev (tl (dropWhile (\<lambda>c. c \<noteq> CHR ''>'') (rev ((x # t) @ ''>'')))),
            rev (takeWhile (\<lambda>c. c \<noteq> CHR ''>'') (rev ((x # t) @ ''>''))))"
    by (simp add: split_last_def)
  have body: "rev (tl (dropWhile (\<lambda>c. c \<noteq> CHR ''>'') (rev ((x # t) @ ''>'')))) = x # t"
    by simp
  show ?thesis
    unfolding URL_PARAMS_TYPE_FINDER_match_def
    using tw sl body by (simp split: option.splits)
qed

lemma lazy_token_form:
  "lazy_token cs = Some (tok, rest) \<Longrightarrow>
     \<exists>x t. tok = x # t \<and> x \<noteq> CHR 0x0A \<and> CHR ''>'' \<notin> set t \<and> CHR 0x0A \<notin> set t"
  by (cases cs) (auto split: if_splits option.splits dest: scan_to_gt_chars)

lemma findall_tokens_match:
  "tok \<in> set (URL_PARAMS_FINDER_findall s) \<Longrightarrow> URL_PARAMS_TYPE_FINDER_match tok \<noteq> None"
proof (induction s rule: URL_PARAMS_FINDER_findall.induct)
  case 1
  then show ?case by simp
next
  case (2 c cs)
  show ?case
  proof (cases "c = CHR ''<''")
    case False
    with 2 show ?thesis by simp
  next
    case True
    show ?thesis
    proof (cases "lazy_token cs")
      case None
      with 2 True show ?thesis by simp
    next
      case (Some p)
      obtain t rest where p: "p = (t, rest)" by (cases p)
      from lazy_token_form[of cs t rest] Some p
      obtain x t' where f: "t = x # t'" "x \<noteq> CHR 0x0A" "CHR ''>'' \<notin> set t'" "CHR 0x0A \<notin> set t'"
        by auto
      from 2 True Some p show ?thesis
        using match_token[OF f(2,3,4)] f(1) by auto
    qed
  qed
qed

lemma required_params_loop_total:
  "\<forall>tok \<in> set toks. URL_PARAMS_TYPE_FINDER_match tok \<noteq> None \<Longrightarrow>
     \<exists>fm. required_params_loop toks acc = Inr fm"
  by (induction toks arbitrary: acc) (auto split: option.splits)

lemma from_url_get_required_params_total:
  "\<exists>fm. from_url_get_required_params url = Inr fm"
  unfolding from_url_get_required_params_def
  by (rule required_params_loop_total) (auto dest: findall_tokens_match)

lemma required_names_loop_total:
  "\<forall>tok \<in> set toks. URL_PARAMS_TYPE_FINDER_match tok \<noteq> None \<Longrightarrow>
     \<exists>names. required_names_loop toks = Inr names"
  by (induction toks) (auto split: option.splits)

lemma from_url_get_required_params_names_total:
  "\<exists>names. from_url_get_required_params_names url = Inr names"
  unfolding from_url_get_required_params_names_def
  by (rule required_names_loop_total) (auto dest: findall_tokens_match)

lemma contains_equal_iff:
  "contains_equal rs new_route \<longleftrightarrow> (\<exists>route \<in> set rs. Route_eq route new_route)"
  by (induction rs) auto


subsection \<open>The type finder on the placeholders of the specification\<close>

text \<open>
  On a segment that is a placeholder in the sense of the specification, the type finder
  of the source finds the same type tag and the same name. The converse fails: the type
  finder also matches segments that only begin like a placeholder.
\<close>

lemma split_last_single:
  "c \<notin> set a \<Longrightarrow> c \<notin> set b \<Longrightarrow> split_last c (a @ c # b) = Some (a, b)"
proof -
  assume a: "c \<notin> set a" and b: "c \<notin> set b"
  have t: "takeWhile (\<lambda>x. x \<noteq> c) (rev b @ c # rev a) = rev b"
    using b by (induction b rule: rev_induct) auto
  have d: "dropWhile (\<lambda>x. x \<noteq> c) (rev b @ c # rev a) = c # rev a"
    using b by (induction b rule: rev_induct) auto
  show ?thesis by (simp add: split_last_def t d)
qed

lemma plain_name_set:
  "plain_name s \<Longrightarrow> s \<noteq> [] \<and> CHR ''<'' \<notin> set s \<and> CHR ''>'' \<notin> set s \<and>
     CHR '':'' \<notin> set s \<and> CHR 0x0A \<notin> set s"
  by (auto simp add: plain_name_def name_char_def list_all_iff)

lemma first_line_whole: "CHR 0x0A \<notin> set s \<Longrightarrow> takeWhile (\<lambda>x. x \<noteq> CHR 0x0A) s = s"
  by (induction s) auto

lemma match_untyped:
  assumes "plain_name n"
  shows "URL_PARAMS_TYPE_FINDER_match (CHR ''<'' # n @ ''>'') = Some (None, n)"
proof -
  note p = plain_name_set [OF assms]
  have fl: "takeWhile (\<lambda>x. x \<noteq> CHR 0x0A) (n @ ''>'') = n @ ''>''"
    using p by (intro first_line_whole) simp
  have sl: "split_last (CHR ''>'') (n @ ''>'') = Some (n, [])"
    using p split_last_single [of "CHR ''>''" n "[]"] by simp
  have "CHR '':'' \<notin> set (butlast (tl n))"
    using p by (metis in_set_butlastD list.set_sel(2) tl_Nil)
  then have nc: "split_last (CHR '':'') (butlast (tl n)) = None"
    by (simp add: split_last_def)
  show ?thesis
    unfolding URL_PARAMS_TYPE_FINDER_match_def using p fl sl nc by simp
qed

lemma match_typed:
  assumes "plain_name ty" and "plain_name n"
  shows "URL_PARAMS_TYPE_FINDER_match (CHR ''<'' # ty @ CHR '':'' # n @ ''>'') = Some (Some ty, n)"
proof -
  note pt = plain_name_set [OF assms(1)]
  note pn = plain_name_set [OF assms(2)]
  let ?body = "ty @ CHR '':'' # n"
  obtain t0 ty' where ty: "ty = t0 # ty'" using pt by (cases ty) auto
  obtain n' nl where n: "n = n' @ [nl]" using pn by (cases n rule: rev_cases) auto
  have fl: "takeWhile (\<lambda>x. x \<noteq> CHR 0x0A) (?body @ ''>'') = ?body @ ''>''"
    using pt pn by (intro first_line_whole) simp
  have sl: "split_last (CHR ''>'') (?body @ ''>'') = Some (?body, [])"
    using pt pn split_last_single [of "CHR ''>''" ?body "[]"] by simp
  have inner: "butlast (tl ?body) = ty' @ CHR '':'' # n'"
    using ty n by (simp add: butlast_append)
  have "CHR '':'' \<notin> set ty'" "CHR '':'' \<notin> set n'" using pt pn ty n by auto
  then have sc: "split_last (CHR '':'') (butlast (tl ?body)) = Some (ty', n')"
    unfolding inner by (rule split_last_single)
  have hb: "hd ?body = t0" "last ?body = nl" using ty n by simp_all
  show ?thesis
    unfolding URL_PARAMS_TYPE_FINDER_match_def
    using fl sl sc hb ty n by simp
qed

lemma spec_parse_untyped_form:
  assumes "spec_parse_placeholder seg = Some (None, n)"
  shows "seg = CHR ''<'' # n @ ''>'' \<and> plain_name n"
proof -
  from assms obtain rest where s: "seg = CHR ''<'' # rest" "rest \<noteq> []" "last rest = CHR ''>''"
    by (auto simp add: spec_parse_placeholder_def split: list.splits if_splits)
  from assms s have "plain_name (butlast rest)" "n = butlast rest"
    by (auto simp add: spec_parse_placeholder_def Let_def split: if_splits)
  with s show ?thesis by (metis append_butlast_last_id)
qed

lemma spec_parse_typed_form:
  assumes "spec_parse_placeholder seg = Some (Some ty, n)"
  shows "seg = CHR ''<'' # ty @ CHR '':'' # n @ ''>'' \<and> plain_name ty \<and> plain_name n"
proof -
  from assms obtain rest where s: "seg = CHR ''<'' # rest" "rest \<noteq> []" "last rest = CHR ''>''"
    by (auto simp add: spec_parse_placeholder_def split: list.splits if_splits)
  from assms s have "plain_name ty" "plain_name n" "butlast rest = ty @ CHR '':'' # n"
    by (auto simp add: spec_parse_placeholder_def Let_def split: if_splits)
  moreover from s have "rest = butlast rest @ ''>''" by (metis append_butlast_last_id)
  ultimately show ?thesis using s by simp
qed

lemma spec_placeholder_is_matched:
  "spec_parse_placeholder seg = Some p \<Longrightarrow> URL_PARAMS_TYPE_FINDER_match seg = Some p"
proof -
  assume a: "spec_parse_placeholder seg = Some p"
  obtain t n where p: "p = (t, n)" by (cases p)
  show ?thesis
  proof (cases t)
    case None
    with a p spec_parse_untyped_form [of seg n] match_untyped [of n] show ?thesis by simp
  next
    case (Some ty)
    with a p spec_parse_typed_form [of seg ty n] match_typed [of ty n] show ?thesis by simp
  qed
qed


subsection \<open>The formatter table of a URL format\<close>

lemma map_of_dict_set: "map_of (dict_set d k v) = (map_of d)(k \<mapsto> v)"
  by (simp add: dict_set_def update_conv')

text \<open>
  The formatter table is built from the tokens of the lazy finder, one after the other:
  the last token that carries a name decides its converter, and every name that a token
  carries has a converter.
\<close>

lemma required_params_loop_append:
  "required_params_loop (xs @ ys) acc =
     (case required_params_loop xs acc of Inl e \<Rightarrow> Inl e | Inr a \<Rightarrow> required_params_loop ys a)"
  by (induction xs arbitrary: acc) (auto split: option.splits)

lemma required_params_loop_keeps:
  "required_params_loop toks acc = Inr fm \<Longrightarrow>
   \<forall>t \<in> set toks. \<forall>ty. URL_PARAMS_TYPE_FINDER_match t \<noteq> Some (ty, name) \<Longrightarrow>
   map_of fm name = map_of acc name"
proof (induction toks arbitrary: acc)
  case Nil
  then show ?case by simp
next
  case (Cons t toks)
  from Cons.prems(1) obtain ty n where
    m: "URL_PARAMS_TYPE_FINDER_match t = Some (ty, n)"
    and rest: "required_params_loop toks (dict_set acc n (PARAM_TYPE_MAPPER ty)) = Inr fm"
    by (auto split: option.splits)
  from Cons.prems(2) m have "n \<noteq> name" by auto
  moreover from Cons.IH [OF rest] Cons.prems(2)
  have "map_of fm name = map_of (dict_set acc n (PARAM_TYPE_MAPPER ty)) name" by simp
  ultimately show ?case by (simp add: map_of_dict_set)
qed

lemma required_params_loop_binds:
  assumes "required_params_loop (pre @ tok # post) acc = Inr fm"
    and "URL_PARAMS_TYPE_FINDER_match tok = Some (ty, name)"
    and "\<forall>t \<in> set post. \<forall>ty'. URL_PARAMS_TYPE_FINDER_match t \<noteq> Some (ty', name)"
  shows "map_of fm name = Some (PARAM_TYPE_MAPPER ty)"
proof -
  from assms(1) obtain a where
    rest: "required_params_loop (tok # post) a = Inr fm"
    by (auto simp add: required_params_loop_append split: sum.splits)
  from rest assms(2)
  have "required_params_loop post (dict_set a name (PARAM_TYPE_MAPPER ty)) = Inr fm" by simp
  from required_params_loop_keeps [OF this assms(3)]
  show ?thesis by (simp add: map_of_dict_set)
qed

lemma required_params_loop_covers:
  "required_params_loop toks acc = Inr fm \<Longrightarrow>
   map_of acc n \<noteq> None \<or> (\<exists>t \<in> set toks. \<exists>ty. URL_PARAMS_TYPE_FINDER_match t = Some (ty, n)) \<Longrightarrow>
   map_of fm n \<noteq> None"
proof (induction toks arbitrary: acc)
  case Nil
  then show ?case by simp
next
  case (Cons t toks)
  from Cons.prems(1) obtain ty k where
    m: "URL_PARAMS_TYPE_FINDER_match t = Some (ty, k)"
    and rest: "required_params_loop toks (dict_set acc k (PARAM_TYPE_MAPPER ty)) = Inr fm"
    by (auto split: option.splits)
  from Cons.prems(2) m
  have "map_of (dict_set acc k (PARAM_TYPE_MAPPER ty)) n \<noteq> None \<or>
        (\<exists>t \<in> set toks. \<exists>ty. URL_PARAMS_TYPE_FINDER_match t = Some (ty, n))"
    by (auto simp add: map_of_dict_set)
  from Cons.IH [OF rest this] show ?case .
qed

text \<open>
  For a URL format that holds one placeholder of the specification's form and no other
  opening angle bracket, the lazy finder returns the placeholder as its only token, and
  \<^verbatim>\<open>from_url_get_required_params\<close> returns the table with the one entry that
  \<^verbatim>\<open>_PARAM_TYPE_MAPPER\<close> selects for the type tag.
\<close>

lemma scan_to_gt_body:
  "CHR ''>'' \<notin> set t \<Longrightarrow> CHR 0x0A \<notin> set t \<Longrightarrow> scan_to_gt (t @ CHR ''>'' # rest) = Some (t, rest)"
  by (induction t) auto

lemma findall_no_bracket: "CHR ''<'' \<notin> set s \<Longrightarrow> URL_PARAMS_FINDER_findall s = []"
  by (induction s) auto

lemma findall_single:
  assumes "CHR ''<'' \<notin> set prefix" and "CHR ''<'' \<notin> set suffix"
    and "body \<noteq> []" and "CHR ''>'' \<notin> set body" and "CHR 0x0A \<notin> set body"
  shows "URL_PARAMS_FINDER_findall (prefix @ CHR ''<'' # body @ CHR ''>'' # suffix) =
           [CHR ''<'' # body @ ''>'']"
  using assms(1)
proof (induction prefix)
  case Nil
  from assms(3) obtain x t where b: "body = x # t" by (cases body) auto
  with assms(4,5) have "lazy_token (body @ CHR ''>'' # suffix) = Some (body, suffix)"
    by (auto simp add: scan_to_gt_body)
  with assms(2) show ?case by (simp add: findall_no_bracket)
next
  case (Cons c prefix)
  then show ?case by auto
qed

lemma from_url_get_required_params_typed:
  assumes "CHR ''<'' \<notin> set prefix" and "CHR ''<'' \<notin> set suffix"
    and "plain_name ty" and "plain_name n"
  shows "from_url_get_required_params (prefix @ CHR ''<'' # ty @ CHR '':'' # n @ CHR ''>'' # suffix) =
           Inr [(n, PARAM_TYPE_MAPPER (Some ty))]"
proof -
  note pt = plain_name_set [OF assms(3)]
  note pn = plain_name_set [OF assms(4)]
  have "URL_PARAMS_FINDER_findall (prefix @ CHR ''<'' # (ty @ CHR '':'' # n) @ CHR ''>'' # suffix) =
      [CHR ''<'' # (ty @ CHR '':'' # n) @ ''>'']"
    using pt pn by (intro findall_single [OF assms(1,2)]) auto
  then show ?thesis
    using match_typed [OF assms(3,4)]
    by (simp add: from_url_get_required_params_def dict_set_def)
qed

lemma from_url_get_required_params_untyped:
  assumes "CHR ''<'' \<notin> set prefix" and "CHR ''<'' \<notin> set suffix" and "plain_name n"
  shows "from_url_get_required_params (prefix @ CHR ''<'' # n @ CHR ''>'' # suffix) =
           Inr [(n, Conv_str)]"
proof -
  note pn = plain_name_set [OF assms(3)]
  have "URL_PARAMS_FINDER_findall (prefix @ CHR ''<'' # n @ CHR ''>'' # suffix) =
      [CHR ''<'' # n @ ''>'']"
    using pn by (intro findall_single [OF assms(1,2)]) auto
  then show ?thesis
    using match_untyped [OF assms(3)]
    by (simp add: from_url_get_required_params_def dict_set_def PARAM_TYPE_MAPPER_def)
qed


subsection \<open>The loop of \<^verbatim>\<open>parse_url\<close>\<close>

lemma parse_url_loop_append:
  "parse_url_loop (xs @ ys) d0 =
     (case parse_url_loop xs d0 of Inl e \<Rightarrow> Inl e | Inr d1 \<Rightarrow> parse_url_loop ys d1)"
  by (induction xs arbitrary: d0) (auto split: option.splits)

lemma parse_url_loop_error: "parse_url_loop xs d0 = Inl e \<Longrightarrow> e = UrlFormatError"
  by (induction xs arbitrary: d0) (auto split: if_splits option.splits)

lemma parse_url_loop_ok_iff:
  "(\<exists>d. parse_url_loop xs d0 = Inr d) \<longleftrightarrow>
     (\<forall>p \<in> set xs. fst p = snd p \<or> URL_PARAMS_TYPE_FINDER_match (fst p) \<noteq> None)"
proof (induction xs arbitrary: d0)
  case Nil
  then show ?case by simp
next
  case (Cons p xs)
  obtain f r where p: "p = (f, r)" by (cases p)
  show ?case
  proof (cases "f = r")
    case True
    with p Cons.IH[of d0] show ?thesis by simp
  next
    case False
    show ?thesis
    proof (cases "URL_PARAMS_TYPE_FINDER_match f")
      case None
      with p False show ?thesis by simp
    next
      case (Some m)
      obtain ty n where m: "m = (ty, n)" by (cases m)
      with p False Some Cons.IH[of "dict_set d0 n r"] show ?thesis by simp
    qed
  qed
qed

lemma parse_url_loop_keeps:
  "parse_url_loop xs d0 = Inr d \<Longrightarrow>
   \<forall>p \<in> set xs. fst p \<noteq> snd p \<longrightarrow> (\<forall>ty. URL_PARAMS_TYPE_FINDER_match (fst p) \<noteq> Some (ty, name)) \<Longrightarrow>
   map_of d name = map_of d0 name"
proof (induction xs arbitrary: d0)
  case Nil
  then show ?case by simp
next
  case (Cons p xs)
  obtain f r where p: "p = (f, r)" by (cases p)
  show ?case
  proof (cases "f = r")
    case True
    with Cons p show ?thesis by simp
  next
    case False
    with Cons.prems p obtain ty n where
      m: "URL_PARAMS_TYPE_FINDER_match f = Some (ty, n)"
      and rest: "parse_url_loop xs (dict_set d0 n r) = Inr d"
      by (auto split: option.splits)
    from Cons.prems(2) p False m have "n \<noteq> name" by auto
    moreover from Cons.IH[OF rest] Cons.prems(2)
    have "map_of d name = map_of (dict_set d0 n r) name" by simp
    ultimately show ?thesis by (simp add: map_of_dict_set)
  qed
qed

lemma parse_url_loop_origin:
  "parse_url_loop xs d0 = Inr d \<Longrightarrow> map_of d name = Some v \<Longrightarrow>
   map_of d0 name = Some v \<or>
   (\<exists>p \<in> set xs. fst p \<noteq> snd p \<and> snd p = v \<and>
      (\<exists>ty. URL_PARAMS_TYPE_FINDER_match (fst p) = Some (ty, name)))"
proof (induction xs arbitrary: d0)
  case Nil
  then show ?case by simp
next
  case (Cons p xs)
  obtain f r where p: "p = (f, r)" by (cases p)
  show ?case
  proof (cases "f = r")
    case True
    with Cons.prems p have "parse_url_loop xs d0 = Inr d" by simp
    from Cons.IH[OF this Cons.prems(2)] show ?thesis by auto
  next
    case False
    with Cons.prems p obtain ty n where
      m: "URL_PARAMS_TYPE_FINDER_match f = Some (ty, n)"
      and rest: "parse_url_loop xs (dict_set d0 n r) = Inr d"
      by (auto split: option.splits)
    from Cons.IH[OF rest Cons.prems(2)]
    have "map_of (dict_set d0 n r) name = Some v \<or>
      (\<exists>p \<in> set xs. fst p \<noteq> snd p \<and> snd p = v \<and>
         (\<exists>ty. URL_PARAMS_TYPE_FINDER_match (fst p) = Some (ty, name)))" .
    then show ?thesis
    proof
      assume a: "map_of (dict_set d0 n r) name = Some v"
      show ?thesis
      proof (cases "n = name")
        case True
        with a have "r = v" by (simp add: map_of_dict_set)
        with True m False p show ?thesis by auto
      next
        case False
        with a show ?thesis by (simp add: map_of_dict_set)
      qed
    next
      assume "\<exists>p \<in> set xs. fst p \<noteq> snd p \<and> snd p = v \<and>
         (\<exists>ty. URL_PARAMS_TYPE_FINDER_match (fst p) = Some (ty, name))"
      then show ?thesis by auto
    qed
  qed
qed

lemma parse_url_loop_binds:
  assumes "parse_url_loop (pre @ (f, r) # post) d0 = Inr d"
    and "f \<noteq> r" and "URL_PARAMS_TYPE_FINDER_match f = Some (ty, name)"
    and "\<forall>p \<in> set post. fst p \<noteq> snd p \<longrightarrow>
           (\<forall>ty. URL_PARAMS_TYPE_FINDER_match (fst p) \<noteq> Some (ty, name))"
  shows "map_of d name = Some r"
proof -
  from assms(1) obtain d1 where
    d1: "parse_url_loop pre d0 = Inr d1" and
    rest: "parse_url_loop ((f, r) # post) d1 = Inr d"
    by (auto simp add: parse_url_loop_append split: sum.splits)
  from rest assms(2,3) have "parse_url_loop post (dict_set d1 name r) = Inr d" by simp
  from parse_url_loop_keeps[OF this assms(4)]
  show ?thesis by (simp add: map_of_dict_set)
qed


subsection \<open>The scan of the route list\<close>

lemma first_valid_None:
  "first_valid lib rs url m = Inr None \<longleftrightarrow>
     (\<forall>r \<in> set rs. \<not> validate_method r m \<or> validate_url lib r url = Inr False)"
  by (induction rs) (auto split: sum.splits)

lemma first_valid_skips:
  "\<forall>x \<in> set pre. \<not> validate_method x m \<or> validate_url lib x url = Inr False \<Longrightarrow>
     first_valid lib (pre @ rs) url m = first_valid lib rs url m"
  by (induction pre) auto

lemma first_valid_found:
  assumes "first_valid lib rs url m = Inr (Some r)"
  shows "\<exists>pre post. rs = pre @ r # post \<and>
        (\<forall>x \<in> set pre. \<not> validate_method x m \<or> validate_url lib x url = Inr False) \<and>
        validate_method r m \<and> validate_url lib r url = Inr True"
  using assms
proof (induction rs)
  case Nil
  then show ?case by simp
next
  case (Cons a rs)
  show ?case
  proof (cases "validate_method a m \<and> validate_url lib a url = Inr True")
    case True
    with Cons.prems have "r = a" by simp
    with True have "a # rs = [] @ r # rs \<and>
        (\<forall>x \<in> set []. \<not> validate_method x m \<or> validate_url lib x url = Inr False) \<and>
        validate_method r m \<and> validate_url lib r url = Inr True" by simp
    then show ?thesis by blast
  next
    case False
    with Cons.prems have skip: "\<not> validate_method a m \<or> validate_url lib a url = Inr False"
      and rest: "first_valid lib rs url m = Inr (Some r)"
      by (auto split: if_splits sum.splits)
    from Cons.IH[OF rest] obtain pre post where
      d: "rs = pre @ r # post"
      and p: "\<forall>x \<in> set pre. \<not> validate_method x m \<or> validate_url lib x url = Inr False"
      and h: "validate_method r m" "validate_url lib r url = Inr True"
      by blast
    from d p skip h have "a # rs = (a # pre) @ r # post \<and>
        (\<forall>x \<in> set (a # pre). \<not> validate_method x m \<or> validate_url lib x url = Inr False) \<and>
        validate_method r m \<and> validate_url lib r url = Inr True" by simp
    then show ?thesis by blast
  qed
qed

lemma first_valid_Some:
  "first_valid lib rs url m = Inr (Some r) \<longleftrightarrow>
     (\<exists>pre post. rs = pre @ r # post \<and>
        (\<forall>x \<in> set pre. \<not> validate_method x m \<or> validate_url lib x url = Inr False) \<and>
        validate_method r m \<and> validate_url lib r url = Inr True)"
proof
  assume "first_valid lib rs url m = Inr (Some r)"
  then show "\<exists>pre post. rs = pre @ r # post \<and>
        (\<forall>x \<in> set pre. \<not> validate_method x m \<or> validate_url lib x url = Inr False) \<and>
        validate_method r m \<and> validate_url lib r url = Inr True"
    by (rule first_valid_found)
next
  assume "\<exists>pre post. rs = pre @ r # post \<and>
        (\<forall>x \<in> set pre. \<not> validate_method x m \<or> validate_url lib x url = Inr False) \<and>
        validate_method r m \<and> validate_url lib r url = Inr True"
  then obtain pre post where d: "rs = pre @ r # post"
      and p: "\<forall>x \<in> set pre. \<not> validate_method x m \<or> validate_url lib x url = Inr False"
      and h: "validate_method r m" "validate_url lib r url = Inr True"
    by blast
  show "first_valid lib rs url m = Inr (Some r)"
    unfolding d first_valid_skips[OF p] using h by simp
qed


subsection \<open>Claims about \<^verbatim>\<open>RouteSet\<close>\<close>

text \<open>
  Claim C7, as amended. \<^verbatim>\<open>RouteSet.add_route\<close> rejects a duplicate: when the list
  already holds a route with the same mapped URL and the same list of accepted methods
  (the same verbs in the same order, as \<^verbatim>\<open>Route.__eq__\<close> compares the two lists), the
  new route is not added and the result is false; otherwise the route is appended and
  the result is true. The counterexample that follows the witness shows that two lists
  holding the same set of verbs in different orders do not count as equal.
\<close>

theorem RouteSet_add_route_dedup:
  "RouteSet_add_route self new_route st =
     (if (\<exists>route \<in> set (all_routes st).
            mapped_url route = mapped_url new_route \<and>
            accepted_methods route = accepted_methods new_route)
      then (False, st)
      else (True, st\<lparr>all_routes := all_routes st @ [new_route]\<rparr>))"
  by (simp add: RouteSet_add_route_def contains_equal_iff Route_eq_def)

theorem RouteSet_add_route_dedup_witness:
  "RouteSet_add_route 0 (SimpleRoute ''/x'' [GET, POST] [] ''h2'')
     \<lparr>all_routes = [SimpleRoute ''/x'' [GET, POST] [] ''h1''],
      default_route = [DefaultRoute [] [] [] ''d'']\<rparr>
   = (False, \<lparr>all_routes = [SimpleRoute ''/x'' [GET, POST] [] ''h1''],
              default_route = [DefaultRoute [] [] [] ''d'']\<rparr>)"
  using RouteSet_add_route_dedup [of 0 "SimpleRoute ''/x'' [GET, POST] [] ''h2''"
     "\<lparr>all_routes = [SimpleRoute ''/x'' [GET, POST] [] ''h1''],
      default_route = [DefaultRoute [] [] [] ''d'']\<rparr>"]
  by simp

theorem RouteSet_add_route_method_order_counterexample:
  "set [GET, POST] = set [POST, GET] \<and>
   RouteSet_add_route 0 (SimpleRoute ''/x'' [POST, GET] [] ''h2'')
     \<lparr>all_routes = [SimpleRoute ''/x'' [GET, POST] [] ''h1''],
      default_route = [DefaultRoute [] [] [] ''d'']\<rparr>
   = (True, \<lparr>all_routes = [SimpleRoute ''/x'' [GET, POST] [] ''h1'',
                            SimpleRoute ''/x'' [POST, GET] [] ''h2''],
             default_route = [DefaultRoute [] [] [] ''d'']\<rparr>)"
  by (auto simp add: RouteSet_add_route_def Route_eq_def)


text \<open>
  When \<^verbatim>\<open>get_route\<close> returns a route, it is the first route of the list that accepts
  the verb and validates the path, every route before it rejecting the verb or answering
  false; or it is the default route, every route of the list rejecting the verb or
  answering false. Nothing is returned when \<^verbatim>\<open>validate_url\<close> of a route raises before a
  match is found.
\<close>

lemma RouteSet_get_route_returns:
  "RouteSet_get_route lib self url method st = Inr route \<longleftrightarrow>
     (\<exists>pre post. all_routes st = pre @ route # post \<and>
        (\<forall>x \<in> set pre. \<not> validate_method x method \<or> validate_url lib x url = Inr False) \<and>
        validate_method route method \<and> validate_url lib route url = Inr True) \<or>
     ((\<forall>x \<in> set (all_routes st).
         \<not> validate_method x method \<or> validate_url lib x url = Inr False) \<and>
      route = default_route st ! self)"
proof -
  have "RouteSet_get_route lib self url method st = Inr route \<longleftrightarrow>
      first_valid lib (all_routes st) url method = Inr (Some route) \<or>
      (first_valid lib (all_routes st) url method = Inr None \<and> route = default_route st ! self)"
    by (auto simp add: RouteSet_get_route_def split: sum.splits option.splits)
  then show ?thesis
    by (simp only: first_valid_Some first_valid_None)
qed

text \<open>
  Claim C6 says that, for every state, path and verb, \<^verbatim>\<open>get_route\<close> returns the first
  route in insertion order for which \<^verbatim>\<open>validate_method\<close> and \<^verbatim>\<open>validate_url\<close> both
  hold, and the default route when no registered route satisfies both. The program does
  otherwise when \<^verbatim>\<open>validate_url\<close> of an earlier route raises, which is the defect
  of claim C4. The routes \<^verbatim>\<open>/files/<name>.<ext>\<close> and \<^verbatim>\<open>/files/<f>\<close> are registered
  in this order on one router. For the path \<^verbatim>\<open>/files/report.pdf\<close> and GET, the second
  route is the first for which both checks hold, but \<^verbatim>\<open>get_route\<close> raises the
  \<^verbatim>\<open>KeyError\<close> of the first route and returns no route. With the first route alone, no
  registered route satisfies both checks, and \<^verbatim>\<open>get_route\<close> raises as well where the
  claim has it return the default route.
\<close>

theorem RouteSet_get_route_raises_KeyError:
  "Router_add_route 0 ''/files/<name>.<ext>'' (Callable ''first'') [GET] []
     \<lparr>all_routes = [], default_route = [DefaultRoute [] [] [] ''fallback'']\<rparr> =
     (Inr (SimpleRoute ''/files/<name>.<ext>'' [GET]
             [(''name'', Conv_str), (''ext'', Conv_str)] ''first''),
      \<lparr>all_routes = [SimpleRoute ''/files/<name>.<ext>'' [GET]
                       [(''name'', Conv_str), (''ext'', Conv_str)] ''first''],
       default_route = [DefaultRoute [] [] [] ''fallback'']\<rparr>) \<and>
   Router_add_route 0 ''/files/<f>'' (Callable ''second'') [GET] []
     \<lparr>all_routes = [SimpleRoute ''/files/<name>.<ext>'' [GET]
                      [(''name'', Conv_str), (''ext'', Conv_str)] ''first''],
      default_route = [DefaultRoute [] [] [] ''fallback'']\<rparr> =
     (Inr (SimpleRoute ''/files/<f>'' [GET] [(''f'', Conv_str)] ''second''),
      \<lparr>all_routes = [SimpleRoute ''/files/<name>.<ext>'' [GET]
                       [(''name'', Conv_str), (''ext'', Conv_str)] ''first'',
                     SimpleRoute ''/files/<f>'' [GET] [(''f'', Conv_str)] ''second''],
       default_route = [DefaultRoute [] [] [] ''fallback'']\<rparr>) \<and>
   validate_method (SimpleRoute ''/files/<f>'' [GET] [(''f'', Conv_str)] ''second'') GET \<and>
   validate_url example_lib
     (SimpleRoute ''/files/<f>'' [GET] [(''f'', Conv_str)] ''second'') ''/files/report.pdf'' =
     Inr True \<and>
   validate_url example_lib
     (SimpleRoute ''/files/<name>.<ext>'' [GET]
        [(''name'', Conv_str), (''ext'', Conv_str)] ''first'') ''/files/report.pdf'' =
     Inl (KeyError ''name>.<ext'') \<and>
   RouteSet_get_route example_lib 0 ''/files/report.pdf'' GET
     \<lparr>all_routes = [SimpleRoute ''/files/<name>.<ext>'' [GET]
                      [(''name'', Conv_str), (''ext'', Conv_str)] ''first'',
                    SimpleRoute ''/files/<f>'' [GET] [(''f'', Conv_str)] ''second''],
      default_route = [DefaultRoute [] [] [] ''fallback'']\<rparr> =
     Inl (KeyError ''name>.<ext'') \<and>
   RouteSet_get_route example_lib 0 ''/files/report.pdf'' GET
     \<lparr>all_routes = [SimpleRoute ''/files/<name>.<ext>'' [GET]
                      [(''name'', Conv_str), (''ext'', Conv_str)] ''first''],
      default_route = [DefaultRoute [] [] [] ''fallback'']\<rparr> =
     Inl (KeyError ''name>.<ext'')"
  by code_simp


subsection \<open>Claims about \<^verbatim>\<open>Router.add_route\<close>\<close>

lemma SimpleRoute_init_total:
  "\<exists>fm. from_url_get_required_params url = Inr fm \<and>
     SimpleRoute_init url f methods = Inr (SimpleRoute url methods fm f)"
  using from_url_get_required_params_total[of url]
  by (auto simp add: SimpleRoute_init_def)

lemma NestedRoute_init_total:
  "\<exists>names. from_url_get_required_params_names (mapped_url r) = Inr names \<and>
     NestedRoute_init url r methods dp =
       Inr (NestedRoute url methods r
              (str_join ''/'' (concat (map (\<lambda>param_name.
                 case map_of dp param_name of None \<Rightarrow> [] | Some v \<Rightarrow> [v]) names))))"
  using from_url_get_required_params_names_total[of "mapped_url r"]
  by (auto simp add: NestedRoute_init_def)

text \<open>
  Claim C9. \<^verbatim>\<open>Router.add_route\<close> fails at registration time, leaving the state as it
  was: with the message about the required default parameters when the handler is a
  \<^verbatim>\<open>SimpleRoute\<close> and \<^verbatim>\<open>default_params\<close> is empty, and with the message about the
  unsupported handler when the handler is neither a \<^verbatim>\<open>SimpleRoute\<close> nor a callable
  (a route of another class, or any other object). When the handler is a
  \<^verbatim>\<open>SimpleRoute\<close> and \<^verbatim>\<open>default_params\<close> is not empty, a \<^verbatim>\<open>NestedRoute\<close> wrapping it is
  built, and when the handler is a callable a \<^verbatim>\<open>SimpleRoute\<close> is built from the URL, the
  handler and the accepted methods; the route built is returned and offered to the
  \<^verbatim>\<open>RouteSet\<close>.
\<close>

theorem Router_add_route_cases:
  "(isinstance_SimpleRoute r \<and> dp = [] \<longrightarrow>
      Router_add_route self url (RouteObject r) methods dp st =
        (Inl (ValueError ''for NestedRoute default_params are required''), st)) \<and>
   (\<not> isinstance_SimpleRoute r \<longrightarrow>
      Router_add_route self url (RouteObject r) methods dp st =
        (Inl (ValueError ''routing not implemented for handler of type''), st)) \<and>
   Router_add_route self url OtherObject methods dp st =
     (Inl (ValueError ''routing not implemented for handler of type''), st) \<and>
   (isinstance_SimpleRoute r \<and> dp \<noteq> [] \<longrightarrow>
      (\<exists>names new_route.
         from_url_get_required_params_names (mapped_url r) = Inr names \<and>
         new_route = NestedRoute url methods r
           (str_join ''/'' (concat (map (\<lambda>param_name.
              case map_of dp param_name of None \<Rightarrow> [] | Some v \<Rightarrow> [v]) names))) \<and>
         Router_add_route self url (RouteObject r) methods dp st =
           (Inr new_route, snd (RouteSet_add_route self new_route st)))) \<and>
   (\<exists>fm new_route.
      from_url_get_required_params url = Inr fm \<and>
      new_route = SimpleRoute url methods fm f \<and>
      Router_add_route self url (Callable f) methods dp st =
        (Inr new_route, snd (RouteSet_add_route self new_route st)))"
proof -
  obtain names where n: "from_url_get_required_params_names (mapped_url r) = Inr names"
    and ni: "NestedRoute_init url r methods dp =
       Inr (NestedRoute url methods r
              (str_join ''/'' (concat (map (\<lambda>param_name.
                 case map_of dp param_name of None \<Rightarrow> [] | Some v \<Rightarrow> [v]) names))))"
    using NestedRoute_init_total[of r url methods dp] by blast
  obtain fm where f: "from_url_get_required_params url = Inr fm"
    and si: "SimpleRoute_init url f methods = Inr (SimpleRoute url methods fm f)"
    using SimpleRoute_init_total[of url f methods] by blast
  show ?thesis
    using n ni f si by (simp add: Router_add_route_def register_route_def)
qed


theorem Router_add_route_cases_witness:
  "Router_add_route 0 ''/a/<x>'' (RouteObject (SimpleRoute ''/a/<x>/<y>'' [GET] [(''x'', Conv_str), (''y'', Conv_str)] ''h'')) [GET] []
      \<lparr>all_routes = [], default_route = [DefaultRoute [] [] [] ''fallback'']\<rparr>
    = (Inl (ValueError ''for NestedRoute default_params are required''),
       \<lparr>all_routes = [], default_route = [DefaultRoute [] [] [] ''fallback'']\<rparr>) \<and>
   Router_add_route 0 ''/a/<x>'' (RouteObject (NestedRoute ''/n'' [GET] (SimpleRoute ''/a/<x>/<y>'' [GET] [(''x'', Conv_str), (''y'', Conv_str)] ''h'') ''default'')) [GET] [(''y'', ''default'')]
      \<lparr>all_routes = [], default_route = [DefaultRoute [] [] [] ''fallback'']\<rparr>
    = (Inl (ValueError ''routing not implemented for handler of type''),
       \<lparr>all_routes = [], default_route = [DefaultRoute [] [] [] ''fallback'']\<rparr>) \<and>
   fst (Router_add_route 0 ''/a/<x>'' (RouteObject (SimpleRoute ''/a/<x>/<y>'' [GET] [(''x'', Conv_str), (''y'', Conv_str)] ''h'')) [GET] [(''y'', ''default'')]
      \<lparr>all_routes = [], default_route = [DefaultRoute [] [] [] ''fallback'']\<rparr>)
    = Inr (NestedRoute ''/a/<x>'' [GET] (SimpleRoute ''/a/<x>/<y>'' [GET] [(''x'', Conv_str), (''y'', Conv_str)] ''h'') ''default'')"
proof -
  let ?R = "SimpleRoute ''/a/<x>/<y>'' [GET] [(''x'', Conv_str), (''y'', Conv_str)] ''h''"
  let ?N = "NestedRoute ''/n'' [GET] ?R ''default''"
  let ?st = "\<lparr>all_routes = [], default_route = [DefaultRoute [] [] [] ''fallback'']\<rparr>"
  have names: "from_url_get_required_params_names (mapped_url ?R) = Inr [''x'', ''y'']"
    by code_simp
  have a: "Router_add_route 0 ''/a/<x>'' (RouteObject ?R) [GET] [] ?st
      = (Inl (ValueError ''for NestedRoute default_params are required''), ?st)"
    using Router_add_route_cases [of ?R "[]" 0 "''/a/<x>''" "[GET]" ?st] by simp
  have b: "Router_add_route 0 ''/a/<x>'' (RouteObject ?N) [GET] [(''y'', ''default'')] ?st
      = (Inl (ValueError ''routing not implemented for handler of type''), ?st)"
    using Router_add_route_cases [of ?N "[(''y'', ''default'')]" 0 "''/a/<x>''" "[GET]" ?st] by simp
  have c: "fst (Router_add_route 0 ''/a/<x>'' (RouteObject ?R) [GET] [(''y'', ''default'')] ?st)
      = Inr (NestedRoute ''/a/<x>'' [GET] ?R ''default'')"
    using Router_add_route_cases [of ?R "[(''y'', ''default'')]" 0 "''/a/<x>''" "[GET]" ?st]
      names by auto
  from a b c show ?thesis by blast
qed


text \<open>
  Claim C10. Whenever \<^verbatim>\<open>Router.add_route\<close> builds a route, it returns that route, whatever
  \<^verbatim>\<open>RouteSet.add_route\<close> answers. When the list already holds a route equal to the new
  one, \<^verbatim>\<open>RouteSet.add_route\<close> answers false, the state stays as it was, and the caller
  still receives the new route, which was not registered.
\<close>

theorem Router_add_route_returns_rejected_route:
  assumes "h = Callable f \<and> SimpleRoute_init url f methods = Inr new_route \<or>
           h = RouteObject r \<and> isinstance_SimpleRoute r \<and> dp \<noteq> [] \<and>
             NestedRoute_init url r methods dp = Inr new_route"
  shows "fst (Router_add_route self url h methods dp st) = Inr new_route \<and>
         ((\<exists>route \<in> set (all_routes st). Route_eq route new_route) \<longrightarrow>
            fst (RouteSet_add_route self new_route st) = False \<and>
            Router_add_route self url h methods dp st = (Inr new_route, st))"
  using assms
  by (auto simp add: Router_add_route_def register_route_def RouteSet_add_route_def
        contains_equal_iff)

theorem Router_add_route_returns_rejected_route_witness:
  "fst (Router_add_route 0 ''/x'' (Callable ''h2'') [GET] []
      \<lparr>all_routes = [SimpleRoute ''/x'' [GET] [] ''h1''],
       default_route = [DefaultRoute [] [] [] ''fallback'']\<rparr>)
     = Inr (SimpleRoute ''/x'' [GET] [] ''h2'') \<and>
   fst (RouteSet_add_route 0 (SimpleRoute ''/x'' [GET] [] ''h2'')
      \<lparr>all_routes = [SimpleRoute ''/x'' [GET] [] ''h1''],
       default_route = [DefaultRoute [] [] [] ''fallback'']\<rparr>) = False \<and>
   Router_add_route 0 ''/x'' (Callable ''h2'') [GET] []
      \<lparr>all_routes = [SimpleRoute ''/x'' [GET] [] ''h1''],
       default_route = [DefaultRoute [] [] [] ''fallback'']\<rparr>
     = (Inr (SimpleRoute ''/x'' [GET] [] ''h2''),
        \<lparr>all_routes = [SimpleRoute ''/x'' [GET] [] ''h1''],
         default_route = [DefaultRoute [] [] [] ''fallback'']\<rparr>)"
proof -
  let ?st = "\<lparr>all_routes = [SimpleRoute ''/x'' [GET] [] ''h1''],
       default_route = [DefaultRoute [] [] [] ''fallback'']\<rparr>"
  let ?new = "SimpleRoute ''/x'' [GET] [] ''h2''"
  have built: "SimpleRoute_init ''/x'' ''h2'' [GET] = Inr ?new" by code_simp
  have dup: "\<exists>route \<in> set (all_routes ?st). Route_eq route ?new"
    by (simp add: Route_eq_def)
  from Router_add_route_returns_rejected_route
         [of "Callable ''h2''" "''h2''" "''/x''" "[GET]" ?new ?new "[]" 0 ?st]
       built dup
  show ?thesis by blast
qed


subsection \<open>Claims about the running program\<close>

text \<open>
  Claim C3 says that two routers constructed independently do not see each other's
  routes and that a new router has no registered route. The program does otherwise,
  because the route list belongs to the class \<^verbatim>\<open>RouteSet\<close>: router 0 and router 1 are
  constructed, router 1 answers a lookup of \<^verbatim>\<open>/x\<close> with its default handler, a route
  for \<^verbatim>\<open>/x\<close> is registered on router 0, and the same lookup on router 1 now answers
  with the handler registered on router 0. A third router constructed afterwards starts
  with that route in its list.
\<close>

theorem Router_route_list_is_shared:
  "Router_init ''handler_A'' initial_state =
     (Inr 0, \<lparr>all_routes = [], default_route = [DefaultRoute [] [] [] ''handler_A'']\<rparr>) \<and>
   Router_init ''handler_B''
     \<lparr>all_routes = [], default_route = [DefaultRoute [] [] [] ''handler_A'']\<rparr> =
     (Inr 1, \<lparr>all_routes = [],
              default_route = [DefaultRoute [] [] [] ''handler_A'',
                               DefaultRoute [] [] [] ''handler_B'']\<rparr>) \<and>
   Router_get_handler example_lib 1 ''/x'' GET
     \<lparr>all_routes = [],
      default_route = [DefaultRoute [] [] [] ''handler_A'',
                       DefaultRoute [] [] [] ''handler_B'']\<rparr> =
     Inr (''handler_B'', None) \<and>
   Router_add_route 0 ''/x'' (Callable ''h'') [GET] []
     \<lparr>all_routes = [],
      default_route = [DefaultRoute [] [] [] ''handler_A'',
                       DefaultRoute [] [] [] ''handler_B'']\<rparr> =
     (Inr (SimpleRoute ''/x'' [GET] [] ''h''),
      \<lparr>all_routes = [SimpleRoute ''/x'' [GET] [] ''h''],
       default_route = [DefaultRoute [] [] [] ''handler_A'',
                        DefaultRoute [] [] [] ''handler_B'']\<rparr>) \<and>
   Router_get_handler example_lib 1 ''/x'' GET
     \<lparr>all_routes = [SimpleRoute ''/x'' [GET] [] ''h''],
      default_route = [DefaultRoute [] [] [] ''handler_A'',
                       DefaultRoute [] [] [] ''handler_B'']\<rparr> =
     Inr (''h'', Some []) \<and>
   Router_init ''handler_C''
     \<lparr>all_routes = [SimpleRoute ''/x'' [GET] [] ''h''],
      default_route = [DefaultRoute [] [] [] ''handler_A'',
                       DefaultRoute [] [] [] ''handler_B'']\<rparr> =
     (Inr 2, \<lparr>all_routes = [SimpleRoute ''/x'' [GET] [] ''h''],
              default_route = [DefaultRoute [] [] [] ''handler_A'',
                               DefaultRoute [] [] [] ''handler_B'',
                               DefaultRoute [] [] [] ''handler_C'']\<rparr>)"
  by code_simp

text \<open>
  Claim C4 says that \<^verbatim>\<open>validate_url\<close> never raises. For a URL format with two
  placeholders in one segment the type finder, which is greedy, reads the whole segment
  as one placeholder whose name runs to the last closing bracket, while the formatters
  were built from the tokens of the lazy finder. The name extracted from the path has no
  formatter, and the \<^verbatim>\<open>KeyError\<close> is not caught by \<^verbatim>\<open>validate_url\<close>.
\<close>

theorem validate_url_raises_KeyError:
  "SimpleRoute_init ''/files/<name>.<ext>'' ''h'' [GET] =
     Inr (SimpleRoute ''/files/<name>.<ext>'' [GET]
            [(''name'', Conv_str), (''ext'', Conv_str)] ''h'') \<and>
   parse_url ''/files/<name>.<ext>'' ''/files/report.pdf'' =
     Inr [(''name>.<ext'', ''report.pdf'')] \<and>
   validate_url example_lib
     (SimpleRoute ''/files/<name>.<ext>'' [GET]
        [(''name'', Conv_str), (''ext'', Conv_str)] ''h'') ''/files/report.pdf'' =
     Inl (KeyError ''name>.<ext'')"
  by code_simp


text \<open>
  Claim C5, as amended. In every state, registering the URL format \<^verbatim>\<open>/items/<int:id>\<close>
  for GET with the handler \<open>h\<close> returns the route whose formatter table binds \<open>id\<close>
  to the integer converter. When every route registered before rejects GET or answers
  false to \<^verbatim>\<open>/items/42\<close>, and none of them has the same URL with the same list of
  methods, the lookup of \<^verbatim>\<open>/items/42\<close> for GET after the registration returns \<open>h\<close> with
  \<open>id\<close> bound to the integer 42, not to the string. When a route registered before is
  the first to accept GET and to validate \<^verbatim>\<open>/items/42\<close>, the lookup returns what that
  route's \<^verbatim>\<open>parse_url\<close> returns: the first match wins. The type tag \<^verbatim>\<open>int\<close>
  selects the integer converter, \<^verbatim>\<open>float\<close> the float converter, and every other tag,
  or none, the string converter: this is stated for every URL format that holds one
  placeholder, and, for every URL format, for the last placeholder token that carries a
  name. The counterexample after the witness registers \<^verbatim>\<open>/items/<name>\<close> first, so that the
  lookup returns its handler with the string 42; and it registers a nested route under
  the URL \<^verbatim>\<open>/items/<int:id>\<close> first, so that the new route counts as a duplicate, is not
  added, and the lookup ends at the default route.
\<close>

theorem register_then_lookup_typed:
  "fst (Router_add_route self ''/items/<int:id>'' (Callable h) [GET] [] st) =
     Inr (SimpleRoute ''/items/<int:id>'' [GET] [(''id'', Conv_int)] h) \<and>
   ((\<forall>x \<in> set (all_routes st).
       (\<not> validate_method x GET \<or> validate_url lib x ''/items/42'' = Inr False) \<and>
       \<not> (mapped_url x = ''/items/<int:id>'' \<and> accepted_methods x = [GET])) \<longrightarrow>
    Router_get_handler lib self ''/items/42'' GET
      (snd (Router_add_route self ''/items/<int:id>'' (Callable h) [GET] [] st)) =
      Inr (h, Some [(''id'', PyInt 42)])) \<and>
   (\<forall>pre x post.
      all_routes st = pre @ x # post \<and>
      (\<forall>y \<in> set pre. \<not> validate_method y GET \<or> validate_url lib y ''/items/42'' = Inr False) \<and>
      validate_method x GET \<and> validate_url lib x ''/items/42'' = Inr True \<longrightarrow>
      Router_get_handler lib self ''/items/42'' GET
        (snd (Router_add_route self ''/items/<int:id>'' (Callable h) [GET] [] st)) =
        Route_parse_url lib x ''/items/42'') \<and>
   (\<forall>prefix suffix n.
      CHR ''<'' \<notin> set prefix \<and> CHR ''<'' \<notin> set suffix \<and> plain_name n \<longrightarrow>
      from_url_get_required_params (prefix @ ''<int:'' @ n @ ''>'' @ suffix) =
        Inr [(n, Conv_int)] \<and>
      from_url_get_required_params (prefix @ ''<float:'' @ n @ ''>'' @ suffix) =
        Inr [(n, Conv_float)] \<and>
      from_url_get_required_params (prefix @ ''<'' @ n @ ''>'' @ suffix) =
        Inr [(n, Conv_str)] \<and>
      (\<forall>ty. plain_name ty \<and> ty \<noteq> ''int'' \<and> ty \<noteq> ''float'' \<longrightarrow>
         from_url_get_required_params (prefix @ ''<'' @ ty @ '':'' @ n @ ''>'' @ suffix) =
           Inr [(n, Conv_str)])) \<and>
   (\<forall>url_format pre tok post ty name.
      URL_PARAMS_FINDER_findall url_format = pre @ tok # post \<and>
      URL_PARAMS_TYPE_FINDER_match tok = Some (ty, name) \<and>
      (\<forall>t \<in> set post. \<forall>ty'. URL_PARAMS_TYPE_FINDER_match t \<noteq> Some (ty', name)) \<longrightarrow>
      (\<exists>fm. from_url_get_required_params url_format = Inr fm \<and>
         map_of fm name =
           Some (if ty = Some ''int'' then Conv_int
                 else if ty = Some ''float'' then Conv_float else Conv_str))) \<and>
   (\<forall>s. convert lib Conv_int s = map_option PyInt (py_int s) \<and>
        convert lib Conv_float s = map_option PyFloat (py_float lib s) \<and>
        convert lib Conv_str s = Some (PyStr s))"
proof -
  let ?url = "''/items/42''"
  let ?R = "SimpleRoute ''/items/<int:id>'' [GET] [(''id'', Conv_int)] h"
  let ?add = "Router_add_route self ''/items/<int:id>'' (Callable h) [GET] [] st"
  have f1: "from_url_get_required_params ''/items/<int:id>'' = Inr [(''id'', Conv_int)]"
    by code_simp
  have f2: "parse_url ''/items/<int:id>'' ''/items/42'' = Inr [(''id'', ''42'')]"
    by code_simp
  have f3: "py_int ''42'' = Some 42" by code_simp
  have add: "?add = (Inr ?R, if contains_equal (all_routes st) ?R then st
                             else st\<lparr>all_routes := all_routes st @ [?R]\<rparr>)"
    by (simp add: Router_add_route_def register_route_def SimpleRoute_init_def f1
          RouteSet_add_route_def)
  have mR: "validate_method ?R GET" by (simp add: validate_method_def)
  have vR: "validate_url lib ?R ?url = Inr True"
    by (simp add: SimpleRoute_validate_url_def f2 is_convertable_def convert_def f3)
  have pR: "Route_parse_url lib ?R ?url = Inr (h, Some [(''id'', PyInt 42)])"
    by (simp add: SimpleRoute_parse_url_def f2 convert_def f3 dict_set_def)
  have a: "fst ?add = Inr ?R" by (simp add: add)
  have b: "Router_get_handler lib self ?url GET (snd ?add) = Inr (h, Some [(''id'', PyInt 42)])"
    if h: "\<forall>x \<in> set (all_routes st).
       (\<not> validate_method x GET \<or> validate_url lib x ?url = Inr False) \<and>
       \<not> (mapped_url x = ''/items/<int:id>'' \<and> accepted_methods x = [GET])"
  proof -
    from h have "\<not> contains_equal (all_routes st) ?R"
      by (auto simp add: contains_equal_iff Route_eq_def)
    then have s: "all_routes (snd ?add) = all_routes st @ [?R]" by (simp add: add)
    from h have rej: "\<forall>x \<in> set (all_routes st).
        \<not> validate_method x GET \<or> validate_url lib x ?url = Inr False" by blast
    have "first_valid lib (all_routes st @ [?R]) ?url GET = first_valid lib [?R] ?url GET"
      by (rule first_valid_skips [OF rej])
    with mR vR have "first_valid lib (all_routes (snd ?add)) ?url GET = Inr (Some ?R)"
      by (simp add: s)
    with pR show ?thesis
      by (simp add: Router_get_handler_def RouteSet_get_route_def)
  qed
  have c: "Router_get_handler lib self ?url GET (snd ?add) = Route_parse_url lib x ?url"
    if h: "all_routes st = pre @ x # post \<and>
      (\<forall>y \<in> set pre. \<not> validate_method y GET \<or> validate_url lib y ?url = Inr False) \<and>
      validate_method x GET \<and> validate_url lib x ?url = Inr True" for pre x post
  proof -
    have "\<exists>post'. all_routes (snd ?add) = pre @ x # post'"
      using h by (simp add: add)
    then obtain post' where s: "all_routes (snd ?add) = pre @ x # post'" by blast
    from h have rej: "\<forall>y \<in> set pre. \<not> validate_method y GET \<or> validate_url lib y ?url = Inr False"
      and ok: "validate_method x GET" "validate_url lib x ?url = Inr True" by blast+
    have "first_valid lib (pre @ x # post') ?url GET = first_valid lib (x # post') ?url GET"
      by (rule first_valid_skips [OF rej])
    with ok have "first_valid lib (all_routes (snd ?add)) ?url GET = Inr (Some x)"
      by (simp add: s)
    then show ?thesis
      by (simp add: Router_get_handler_def RouteSet_get_route_def)
  qed
  have pi: "plain_name ''int''" and pf: "plain_name ''float''"
    by (simp_all add: plain_name_def name_char_def)
  have d: "from_url_get_required_params (prefix @ ''<int:'' @ n @ ''>'' @ suffix) =
        Inr [(n, Conv_int)] \<and>
      from_url_get_required_params (prefix @ ''<float:'' @ n @ ''>'' @ suffix) =
        Inr [(n, Conv_float)] \<and>
      from_url_get_required_params (prefix @ ''<'' @ n @ ''>'' @ suffix) =
        Inr [(n, Conv_str)] \<and>
      (\<forall>ty. plain_name ty \<and> ty \<noteq> ''int'' \<and> ty \<noteq> ''float'' \<longrightarrow>
         from_url_get_required_params (prefix @ ''<'' @ ty @ '':'' @ n @ ''>'' @ suffix) =
           Inr [(n, Conv_str)])"
    if h: "CHR ''<'' \<notin> set prefix \<and> CHR ''<'' \<notin> set suffix \<and> plain_name n"
    for prefix suffix n
  proof -
    from h have p: "CHR ''<'' \<notin> set prefix" and s: "CHR ''<'' \<notin> set suffix"
      and n: "plain_name n" by blast+
    have 1: "from_url_get_required_params (prefix @ ''<int:'' @ n @ ''>'' @ suffix) =
        Inr [(n, Conv_int)]"
      using from_url_get_required_params_typed [OF p s pi n]
      by (simp add: PARAM_TYPE_MAPPER_def)
    have 2: "from_url_get_required_params (prefix @ ''<float:'' @ n @ ''>'' @ suffix) =
        Inr [(n, Conv_float)]"
      using from_url_get_required_params_typed [OF p s pf n]
      by (simp add: PARAM_TYPE_MAPPER_def)
    have 3: "from_url_get_required_params (prefix @ ''<'' @ n @ ''>'' @ suffix) =
        Inr [(n, Conv_str)]"
      using from_url_get_required_params_untyped [OF p s n] by simp
    have 4: "\<forall>ty. plain_name ty \<and> ty \<noteq> ''int'' \<and> ty \<noteq> ''float'' \<longrightarrow>
         from_url_get_required_params (prefix @ ''<'' @ ty @ '':'' @ n @ ''>'' @ suffix) =
           Inr [(n, Conv_str)]"
    proof (intro allI impI)
      fix ty assume t: "plain_name ty \<and> ty \<noteq> ''int'' \<and> ty \<noteq> ''float''"
      then have pt: "plain_name ty" by blast
      from t from_url_get_required_params_typed [OF p s pt n]
      show "from_url_get_required_params (prefix @ ''<'' @ ty @ '':'' @ n @ ''>'' @ suffix) =
           Inr [(n, Conv_str)]"
        by (simp add: PARAM_TYPE_MAPPER_def)
    qed
    from 1 2 3 4 show ?thesis by (intro conjI)
  qed
  have g: "\<exists>fm. from_url_get_required_params url_format = Inr fm \<and>
         map_of fm name =
           Some (if ty = Some ''int'' then Conv_int
                 else if ty = Some ''float'' then Conv_float else Conv_str)"
    if h: "URL_PARAMS_FINDER_findall url_format = pre @ tok # post \<and>
      URL_PARAMS_TYPE_FINDER_match tok = Some (ty, name) \<and>
      (\<forall>t \<in> set post. \<forall>ty'. URL_PARAMS_TYPE_FINDER_match t \<noteq> Some (ty', name))"
    for url_format pre tok post ty name
  proof -
    from from_url_get_required_params_total [of url_format]
    obtain fm where fm: "from_url_get_required_params url_format = Inr fm" by blast
    from h have toks: "URL_PARAMS_FINDER_findall url_format = pre @ tok # post"
      and tok: "URL_PARAMS_TYPE_FINDER_match tok = Some (ty, name)"
      and last: "\<forall>t \<in> set post. \<forall>ty'. URL_PARAMS_TYPE_FINDER_match t \<noteq> Some (ty', name)"
      by blast+
    from fm toks have loop: "required_params_loop (pre @ tok # post) [] = Inr fm"
      by (simp add: from_url_get_required_params_def)
    from required_params_loop_binds [OF loop tok last]
    have "map_of fm name =
           Some (if ty = Some ''int'' then Conv_int
                 else if ty = Some ''float'' then Conv_float else Conv_str)"
      by (simp add: PARAM_TYPE_MAPPER_def)
    with fm show ?thesis by blast
  qed
  have e: "\<forall>s. convert lib Conv_int s = map_option PyInt (py_int s) \<and>
        convert lib Conv_float s = map_option PyFloat (py_float lib s) \<and>
        convert lib Conv_str s = Some (PyStr s)"
    by (simp add: convert_def)
  show ?thesis
  proof (intro conjI)
    show "fst ?add = Inr ?R" by (rule a)
    show "(\<forall>x \<in> set (all_routes st).
       (\<not> validate_method x GET \<or> validate_url lib x ?url = Inr False) \<and>
       \<not> (mapped_url x = ''/items/<int:id>'' \<and> accepted_methods x = [GET])) \<longrightarrow>
      Router_get_handler lib self ?url GET (snd ?add) = Inr (h, Some [(''id'', PyInt 42)])"
      using b by blast
    show "\<forall>pre x post.
      all_routes st = pre @ x # post \<and>
      (\<forall>y \<in> set pre. \<not> validate_method y GET \<or> validate_url lib y ?url = Inr False) \<and>
      validate_method x GET \<and> validate_url lib x ?url = Inr True \<longrightarrow>
      Router_get_handler lib self ?url GET (snd ?add) = Route_parse_url lib x ?url"
      using c by blast
    show "\<forall>prefix suffix n.
      CHR ''<'' \<notin> set prefix \<and> CHR ''<'' \<notin> set suffix \<and> plain_name n \<longrightarrow>
      from_url_get_required_params (prefix @ ''<int:'' @ n @ ''>'' @ suffix) =
        Inr [(n, Conv_int)] \<and>
      from_url_get_required_params (prefix @ ''<float:'' @ n @ ''>'' @ suffix) =
        Inr [(n, Conv_float)] \<and>
      from_url_get_required_params (prefix @ ''<'' @ n @ ''>'' @ suffix) =
        Inr [(n, Conv_str)] \<and>
      (\<forall>ty. plain_name ty \<and> ty \<noteq> ''int'' \<and> ty \<noteq> ''float'' \<longrightarrow>
         from_url_get_required_params (prefix @ ''<'' @ ty @ '':'' @ n @ ''>'' @ suffix) =
           Inr [(n, Conv_str)])"
      using d by blast
    show "\<forall>url_format pre tok post ty name.
      URL_PARAMS_FINDER_findall url_format = pre @ tok # post \<and>
      URL_PARAMS_TYPE_FINDER_match tok = Some (ty, name) \<and>
      (\<forall>t \<in> set post. \<forall>ty'. URL_PARAMS_TYPE_FINDER_match t \<noteq> Some (ty', name)) \<longrightarrow>
      (\<exists>fm. from_url_get_required_params url_format = Inr fm \<and>
         map_of fm name =
           Some (if ty = Some ''int'' then Conv_int
                 else if ty = Some ''float'' then Conv_float else Conv_str))"
      using g by blast
    show "\<forall>s. convert lib Conv_int s = map_option PyInt (py_int s) \<and>
        convert lib Conv_float s = map_option PyFloat (py_float lib s) \<and>
        convert lib Conv_str s = Some (PyStr s)"
      by (rule e)
  qed
qed

theorem register_then_lookup_typed_witness:
  "Router_get_handler example_lib 0 ''/items/42'' GET
     \<lparr>all_routes = [SimpleRoute ''/other'' [GET] [] ''o'',
                    SimpleRoute ''/items/<int:id>'' [GET] [(''id'', Conv_int)] ''h''],
      default_route = [DefaultRoute [] [] [] ''fallback'']\<rparr> =
     Inr (''h'', Some [(''id'', PyInt 42)]) \<and>
   Router_get_handler example_lib 0 ''/items/42'' GET
     \<lparr>all_routes = [SimpleRoute ''/items/<name>'' [GET] [(''name'', Conv_str)] ''other'',
                    SimpleRoute ''/items/<int:id>'' [GET] [(''id'', Conv_int)] ''h''],
      default_route = [DefaultRoute [] [] [] ''fallback'']\<rparr> =
     Route_parse_url example_lib
       (SimpleRoute ''/items/<name>'' [GET] [(''name'', Conv_str)] ''other'') ''/items/42'' \<and>
   from_url_get_required_params ''/items/<int:id>/edit'' = Inr [(''id'', Conv_int)] \<and>
   from_url_get_required_params ''/items/<float:price>/edit'' = Inr [(''price'', Conv_float)] \<and>
   from_url_get_required_params ''/items/<price>/edit'' = Inr [(''price'', Conv_str)] \<and>
   from_url_get_required_params ''/items/<uuid:key>/edit'' = Inr [(''key'', Conv_str)] \<and>
   map_of [(''a'', Conv_int), (''b'', Conv_float), (''c'', Conv_str)] ''b'' = Some Conv_float"
proof -
  let ?o = "SimpleRoute ''/other'' [GET] [] ''o''"
  let ?n = "SimpleRoute ''/items/<name>'' [GET] [(''name'', Conv_str)] ''other''"
  let ?R = "SimpleRoute ''/items/<int:id>'' [GET] [(''id'', Conv_int)] ''h''"
  let ?d = "[DefaultRoute [] [] [] ''fallback'']"
  let ?st = "\<lparr>all_routes = [?o], default_route = ?d\<rparr>"
  let ?st' = "\<lparr>all_routes = [?n], default_route = ?d\<rparr>"
  note T = register_then_lookup_typed
    [where self = 0 and h = "''h''" and st = ?st and lib = example_lib]
  note T' = register_then_lookup_typed
    [where self = 0 and h = "''h''" and st = ?st' and lib = example_lib]
  have add: "Router_add_route 0 ''/items/<int:id>'' (Callable ''h'') [GET] [] ?st =
      (Inr ?R, \<lparr>all_routes = [?o, ?R], default_route = ?d\<rparr>)"
    by code_simp
  have add': "Router_add_route 0 ''/items/<int:id>'' (Callable ''h'') [GET] [] ?st' =
      (Inr ?R, \<lparr>all_routes = [?n, ?R], default_route = ?d\<rparr>)"
    by code_simp
  have vo: "validate_url example_lib ?o ''/items/42'' = Inr False" by code_simp
  have hyp: "\<forall>x \<in> set (all_routes ?st).
       (\<not> validate_method x GET \<or> validate_url example_lib x ''/items/42'' = Inr False) \<and>
       \<not> (mapped_url x = ''/items/<int:id>'' \<and> accepted_methods x = [GET])"
    using vo by simp
  from T [THEN conjunct2, THEN conjunct1, THEN mp, OF hyp]
  have 1: "Router_get_handler example_lib 0 ''/items/42'' GET
     \<lparr>all_routes = [?o, ?R], default_route = ?d\<rparr> = Inr (''h'', Some [(''id'', PyInt 42)])"
    by (simp add: add)
  have vn: "validate_url example_lib ?n ''/items/42'' = Inr True" by code_simp
  have hyp': "all_routes ?st' = [] @ ?n # [] \<and>
      (\<forall>y \<in> set []. \<not> validate_method y GET \<or>
          validate_url example_lib y ''/items/42'' = Inr False) \<and>
      validate_method ?n GET \<and> validate_url example_lib ?n ''/items/42'' = Inr True"
    using vn by (simp add: validate_method_def)
  from T' [THEN conjunct2, THEN conjunct2, THEN conjunct1, THEN spec, THEN spec, THEN spec,
           THEN mp, OF hyp']
  have 2: "Router_get_handler example_lib 0 ''/items/42'' GET
     \<lparr>all_routes = [?n, ?R], default_route = ?d\<rparr> =
     Route_parse_url example_lib ?n ''/items/42''"
    by (simp only: add' snd_conv)
  have pl: "CHR ''<'' \<notin> set ''/items/'' \<and> CHR ''<'' \<notin> set ''/edit'' \<and> plain_name ''id''"
    "CHR ''<'' \<notin> set ''/items/'' \<and> CHR ''<'' \<notin> set ''/edit'' \<and> plain_name ''price''"
    "CHR ''<'' \<notin> set ''/items/'' \<and> CHR ''<'' \<notin> set ''/edit'' \<and> plain_name ''key''"
    by (simp_all add: plain_name_def name_char_def)
  note P = T [THEN conjunct2, THEN conjunct2, THEN conjunct2, THEN conjunct1,
              THEN spec, THEN spec, THEN spec, THEN mp]
  from P [OF pl(1)]
  have 3: "from_url_get_required_params ''/items/<int:id>/edit'' = Inr [(''id'', Conv_int)]"
    by simp
  from P [OF pl(2)]
  have 4: "from_url_get_required_params ''/items/<float:price>/edit'' = Inr [(''price'', Conv_float)]"
    and 5: "from_url_get_required_params ''/items/<price>/edit'' = Inr [(''price'', Conv_str)]"
    by simp_all
  have pu: "plain_name ''uuid'' \<and> ''uuid'' \<noteq> ''int'' \<and> ''uuid'' \<noteq> ''float''"
    by (simp add: plain_name_def name_char_def)
  from P [OF pl(3), THEN conjunct2, THEN conjunct2, THEN conjunct2, THEN spec, THEN mp, OF pu]
  have 6: "from_url_get_required_params ''/items/<uuid:key>/edit'' = Inr [(''key'', Conv_str)]"
    by simp
  have fabc: "from_url_get_required_params ''/<int:a>/<float:b>/<c>'' =
      Inr [(''a'', Conv_int), (''b'', Conv_float), (''c'', Conv_str)]"
    by code_simp
  have tabc: "URL_PARAMS_FINDER_findall ''/<int:a>/<float:b>/<c>'' =
      [''<int:a>''] @ ''<float:b>'' # [''<c>'']"
    by code_simp
  have mb: "URL_PARAMS_TYPE_FINDER_match ''<float:b>'' = Some (Some ''float'', ''b'')"
    by code_simp
  have mc: "URL_PARAMS_TYPE_FINDER_match ''<c>'' = Some (None, ''c'')" by code_simp
  have hg: "URL_PARAMS_FINDER_findall ''/<int:a>/<float:b>/<c>'' =
        [''<int:a>''] @ ''<float:b>'' # [''<c>''] \<and>
      URL_PARAMS_TYPE_FINDER_match ''<float:b>'' = Some (Some ''float'', ''b'') \<and>
      (\<forall>t \<in> set [''<c>'']. \<forall>ty'. URL_PARAMS_TYPE_FINDER_match t \<noteq> Some (ty', ''b''))"
    using tabc mb mc by simp
  from T [THEN conjunct2, THEN conjunct2, THEN conjunct2, THEN conjunct2, THEN conjunct1,
          THEN spec, THEN spec, THEN spec, THEN spec, THEN spec, THEN spec, THEN mp, OF hg]
  have 7: "map_of [(''a'', Conv_int), (''b'', Conv_float), (''c'', Conv_str)] ''b'' =
      Some Conv_float"
    unfolding fabc by simp
  from 1 2 3 4 5 6 7 show ?thesis by (intro conjI)
qed

theorem register_after_earlier_route_counterexample:
  "Router_init ''fallback'' initial_state =
     (Inr 0, \<lparr>all_routes = [], default_route = [DefaultRoute [] [] [] ''fallback'']\<rparr>) \<and>
   Router_add_route 0 ''/items/<name>'' (Callable ''other'') [GET] []
     \<lparr>all_routes = [], default_route = [DefaultRoute [] [] [] ''fallback'']\<rparr> =
     (Inr (SimpleRoute ''/items/<name>'' [GET] [(''name'', Conv_str)] ''other''),
      \<lparr>all_routes = [SimpleRoute ''/items/<name>'' [GET] [(''name'', Conv_str)] ''other''],
       default_route = [DefaultRoute [] [] [] ''fallback'']\<rparr>) \<and>
   Router_add_route 0 ''/items/<int:id>'' (Callable ''h'') [GET] []
     \<lparr>all_routes = [SimpleRoute ''/items/<name>'' [GET] [(''name'', Conv_str)] ''other''],
      default_route = [DefaultRoute [] [] [] ''fallback'']\<rparr> =
     (Inr (SimpleRoute ''/items/<int:id>'' [GET] [(''id'', Conv_int)] ''h''),
      \<lparr>all_routes = [SimpleRoute ''/items/<name>'' [GET] [(''name'', Conv_str)] ''other'',
                     SimpleRoute ''/items/<int:id>'' [GET] [(''id'', Conv_int)] ''h''],
       default_route = [DefaultRoute [] [] [] ''fallback'']\<rparr>) \<and>
   Router_get_handler example_lib 0 ''/items/42'' GET
     \<lparr>all_routes = [SimpleRoute ''/items/<name>'' [GET] [(''name'', Conv_str)] ''other'',
                    SimpleRoute ''/items/<int:id>'' [GET] [(''id'', Conv_int)] ''h''],
      default_route = [DefaultRoute [] [] [] ''fallback'']\<rparr> =
     Inr (''other'', Some [(''name'', PyStr ''42'')]) \<and>
   Router_add_route 0 ''/a/<x>'' (Callable ''m'') [GET] []
     \<lparr>all_routes = [], default_route = [DefaultRoute [] [] [] ''fallback'']\<rparr> =
     (Inr (SimpleRoute ''/a/<x>'' [GET] [(''x'', Conv_str)] ''m''),
      \<lparr>all_routes = [SimpleRoute ''/a/<x>'' [GET] [(''x'', Conv_str)] ''m''],
       default_route = [DefaultRoute [] [] [] ''fallback'']\<rparr>) \<and>
   Router_add_route 0 ''/items/<int:id>''
     (RouteObject (SimpleRoute ''/a/<x>'' [GET] [(''x'', Conv_str)] ''m'')) [GET] [(''x'', ''1'')]
     \<lparr>all_routes = [SimpleRoute ''/a/<x>'' [GET] [(''x'', Conv_str)] ''m''],
      default_route = [DefaultRoute [] [] [] ''fallback'']\<rparr> =
     (Inr (NestedRoute ''/items/<int:id>'' [GET]
             (SimpleRoute ''/a/<x>'' [GET] [(''x'', Conv_str)] ''m'') ''1''),
      \<lparr>all_routes = [SimpleRoute ''/a/<x>'' [GET] [(''x'', Conv_str)] ''m'',
                     NestedRoute ''/items/<int:id>'' [GET]
                       (SimpleRoute ''/a/<x>'' [GET] [(''x'', Conv_str)] ''m'') ''1''],
       default_route = [DefaultRoute [] [] [] ''fallback'']\<rparr>) \<and>
   Router_add_route 0 ''/items/<int:id>'' (Callable ''h'') [GET] []
     \<lparr>all_routes = [SimpleRoute ''/a/<x>'' [GET] [(''x'', Conv_str)] ''m'',
                    NestedRoute ''/items/<int:id>'' [GET]
                      (SimpleRoute ''/a/<x>'' [GET] [(''x'', Conv_str)] ''m'') ''1''],
      default_route = [DefaultRoute [] [] [] ''fallback'']\<rparr> =
     (Inr (SimpleRoute ''/items/<int:id>'' [GET] [(''id'', Conv_int)] ''h''),
      \<lparr>all_routes = [SimpleRoute ''/a/<x>'' [GET] [(''x'', Conv_str)] ''m'',
                     NestedRoute ''/items/<int:id>'' [GET]
                       (SimpleRoute ''/a/<x>'' [GET] [(''x'', Conv_str)] ''m'') ''1''],
       default_route = [DefaultRoute [] [] [] ''fallback'']\<rparr>) \<and>
   Router_get_handler example_lib 0 ''/items/42'' GET
     \<lparr>all_routes = [SimpleRoute ''/a/<x>'' [GET] [(''x'', Conv_str)] ''m'',
                    NestedRoute ''/items/<int:id>'' [GET]
                      (SimpleRoute ''/a/<x>'' [GET] [(''x'', Conv_str)] ''m'') ''1''],
      default_route = [DefaultRoute [] [] [] ''fallback'']\<rparr> =
     Inr (''fallback'', None)"
  by code_simp


subsection \<open>Claims about \<^verbatim>\<open>parse_url\<close>\<close>

lemma in_set_drop_nth:
  "p \<in> set (drop n xs) \<Longrightarrow> \<exists>j. n \<le> j \<and> j < length xs \<and> p = xs ! j"
proof -
  assume "p \<in> set (drop n xs)"
  then obtain k where k: "k < length (drop n xs)" "p = drop n xs ! k"
    by (auto simp add: in_set_conv_nth)
  then have "n + k < length xs" "p = xs ! (n + k)" by auto
  then show ?thesis by (intro exI[of _ "n + k"]) simp
qed

lemma parse_url_zip:
  assumes "ts = str_split CHR ''/'' url_format" and "ps = str_split CHR ''/'' url"
    and "length ts = length ps"
  shows "parse_url url_format url = parse_url_loop (zip ts ps) []"
  using assms by (simp add: parse_url_def Let_def)

lemma parse_url_ok_iff_nth:
  assumes ts: "ts = str_split CHR ''/'' url_format"
    and ps: "ps = str_split CHR ''/'' url"
    and len: "length ts = length ps"
  shows "(\<exists>d. parse_url url_format url = Inr d) \<longleftrightarrow>
           (\<forall>i < length ts. URL_PARAMS_TYPE_FINDER_match (ts ! i) = None \<longrightarrow> ts ! i = ps ! i)"
proof -
  let ?z = "zip ts ps"
  note pu = parse_url_zip [OF ts ps len]
  have lz: "length ?z = length ts" using len by simp
  have nz: "\<And>i. i < length ts \<Longrightarrow> ?z ! i = (ts ! i, ps ! i)" using len by simp
  have "(\<forall>p \<in> set ?z. fst p = snd p \<or> URL_PARAMS_TYPE_FINDER_match (fst p) \<noteq> None) \<longleftrightarrow>
        (\<forall>i < length ts. URL_PARAMS_TYPE_FINDER_match (ts ! i) = None \<longrightarrow> ts ! i = ps ! i)"
  proof
    assume l: "\<forall>p \<in> set ?z. fst p = snd p \<or> URL_PARAMS_TYPE_FINDER_match (fst p) \<noteq> None"
    show "\<forall>i < length ts. URL_PARAMS_TYPE_FINDER_match (ts ! i) = None \<longrightarrow> ts ! i = ps ! i"
    proof (intro allI impI)
      fix i assume i: "i < length ts" and n: "URL_PARAMS_TYPE_FINDER_match (ts ! i) = None"
      from i lz have "?z ! i \<in> set ?z" by (metis nth_mem)
      with l nz[OF i] n show "ts ! i = ps ! i" by auto
    qed
  next
    assume r: "\<forall>i < length ts. URL_PARAMS_TYPE_FINDER_match (ts ! i) = None \<longrightarrow> ts ! i = ps ! i"
    show "\<forall>p \<in> set ?z. fst p = snd p \<or> URL_PARAMS_TYPE_FINDER_match (fst p) \<noteq> None"
    proof
      fix p assume "p \<in> set ?z"
      then obtain i where i: "i < length ?z" "p = ?z ! i" by (auto simp add: in_set_conv_nth)
      with lz nz have "p = (ts ! i, ps ! i)" "i < length ts" by auto
      with r show "fst p = snd p \<or> URL_PARAMS_TYPE_FINDER_match (fst p) \<noteq> None" by auto
    qed
  qed
  then show ?thesis unfolding pu parse_url_loop_ok_iff .
qed

lemma parse_url_binds_nth:
  assumes ts: "ts = str_split CHR ''/'' url_format"
    and ps: "ps = str_split CHR ''/'' url"
    and len: "length ts = length ps"
    and d: "parse_url url_format url = Inr d"
    and i: "i < length ts" and ne: "ts ! i \<noteq> ps ! i"
    and m: "URL_PARAMS_TYPE_FINDER_match (ts ! i) = Some (ty, name)"
    and later: "\<forall>j. i < j \<and> j < length ts \<and> ts ! j \<noteq> ps ! j \<longrightarrow>
                  (\<forall>ty'. URL_PARAMS_TYPE_FINDER_match (ts ! j) \<noteq> Some (ty', name))"
  shows "map_of d name = Some (ps ! i)"
proof -
  let ?z = "zip ts ps"
  note pu = parse_url_zip [OF ts ps len]
  have lz: "length ?z = length ts" using len by simp
  have nz: "\<And>i. i < length ts \<Longrightarrow> ?z ! i = (ts ! i, ps ! i)" using len by simp
  from i lz have "?z = take i ?z @ ?z ! i # drop (Suc i) ?z"
    by (metis id_take_nth_drop)
  with nz[OF i] have dec: "?z = take i ?z @ (ts ! i, ps ! i) # drop (Suc i) ?z" by simp
  have post: "\<forall>p \<in> set (drop (Suc i) ?z). fst p \<noteq> snd p \<longrightarrow>
         (\<forall>ty. URL_PARAMS_TYPE_FINDER_match (fst p) \<noteq> Some (ty, name))"
  proof (intro ballI impI)
    fix p assume p: "p \<in> set (drop (Suc i) ?z)" and pn: "fst p \<noteq> snd p"
    from in_set_drop_nth[OF p] obtain j where j: "Suc i \<le> j" "j < length ?z" "p = ?z ! j"
      by blast
    with lz nz have pj: "p = (ts ! j, ps ! j)" "j < length ts" by auto
    with pn later j(1)
    show "\<forall>ty. URL_PARAMS_TYPE_FINDER_match (fst p) \<noteq> Some (ty, name)" by simp
  qed
  from d pu dec have "parse_url_loop (take i ?z @ (ts ! i, ps ! i) # drop (Suc i) ?z) [] = Inr d"
    by simp
  from parse_url_loop_binds[OF this ne m post] show ?thesis .
qed

lemma parse_url_origin_nth:
  assumes ts: "ts = str_split CHR ''/'' url_format"
    and ps: "ps = str_split CHR ''/'' url"
    and len: "length ts = length ps"
    and d: "parse_url url_format url = Inr d"
    and mv: "map_of d name = Some v"
  shows "\<exists>i ty. i < length ts \<and> ts ! i \<noteq> ps ! i \<and>
           URL_PARAMS_TYPE_FINDER_match (ts ! i) = Some (ty, name) \<and> ps ! i = v"
proof -
  let ?z = "zip ts ps"
  note pu = parse_url_zip [OF ts ps len]
  have lz: "length ?z = length ts" using len by simp
  have nz: "\<And>i. i < length ts \<Longrightarrow> ?z ! i = (ts ! i, ps ! i)" using len by simp
  from d pu have "parse_url_loop ?z [] = Inr d" by simp
  from parse_url_loop_origin[OF this mv]
  obtain p where p: "p \<in> set ?z" "fst p \<noteq> snd p" "snd p = v"
    "\<exists>ty. URL_PARAMS_TYPE_FINDER_match (fst p) = Some (ty, name)" by auto
  from p(1) obtain i where i: "i < length ?z" "p = ?z ! i" by (auto simp add: in_set_conv_nth)
  with lz nz have "p = (ts ! i, ps ! i)" "i < length ts" by auto
  with p show ?thesis by auto
qed

text \<open>
  Claim C1, as amended. Let the URL format and the path have the same number of segments,
  and let every segment of the format that differs from the path segment at its position
  and that the type finder matches be a placeholder as the specification describes it.
  Then \<^verbatim>\<open>parse_url\<close> succeeds if and only if every segment of the format that is not a
  placeholder is equal to the path segment at its position. The mapping it returns binds
  the name of a placeholder to the path segment at the placeholder's position whenever
  that path segment differs from the text of the placeholder itself and no later such
  placeholder carries the same name; and every binding of the mapping comes from such a
  position. The counterexample after the witness shows what the claim leaves out: a path
  segment that repeats the text of the placeholder is skipped as an equal pair and binds
  nothing, and of two placeholders with one name only the later one is bound. Its last
  part is a segment that only begins like a placeholder: the type finder matches it,
  which the hypothesis on the segments excludes.
\<close>

theorem parse_url_matches:
  assumes ts: "ts = str_split CHR ''/'' url_format"
    and ps: "ps = str_split CHR ''/'' url"
    and len: "length ts = length ps"
    and reg: "\<forall>i < length ts. ts ! i \<noteq> ps ! i \<and> URL_PARAMS_TYPE_FINDER_match (ts ! i) \<noteq> None \<longrightarrow>
                spec_parse_placeholder (ts ! i) \<noteq> None"
  shows "((\<exists>d. parse_url url_format url = Inr d) \<longleftrightarrow>
            (\<forall>i < length ts. spec_parse_placeholder (ts ! i) = None \<longrightarrow> ts ! i = ps ! i)) \<and>
         (\<forall>d. parse_url url_format url = Inr d \<longrightarrow>
            (\<forall>i ty name.
               i < length ts \<and> ts ! i \<noteq> ps ! i \<and>
               spec_parse_placeholder (ts ! i) = Some (ty, name) \<and>
               (\<forall>j. i < j \<and> j < length ts \<and> ts ! j \<noteq> ps ! j \<longrightarrow>
                  (\<forall>ty'. spec_parse_placeholder (ts ! j) \<noteq> Some (ty', name))) \<longrightarrow>
               map_of d name = Some (ps ! i)) \<and>
            (\<forall>name v. map_of d name = Some v \<longrightarrow>
               (\<exists>i ty. i < length ts \<and> ts ! i \<noteq> ps ! i \<and>
                  spec_parse_placeholder (ts ! i) = Some (ty, name) \<and> ps ! i = v)))"
proof (intro conjI allI impI)
  have agree: "URL_PARAMS_TYPE_FINDER_match (ts ! i) = spec_parse_placeholder (ts ! i)"
    if "i < length ts" "ts ! i \<noteq> ps ! i" for i
  proof (cases "spec_parse_placeholder (ts ! i)")
    case None
    with reg that show ?thesis by auto
  next
    case (Some p)
    then show ?thesis by (simp add: spec_placeholder_is_matched)
  qed
  have lits: "(\<forall>i < length ts. URL_PARAMS_TYPE_FINDER_match (ts ! i) = None \<longrightarrow> ts ! i = ps ! i) \<longleftrightarrow>
              (\<forall>i < length ts. spec_parse_placeholder (ts ! i) = None \<longrightarrow> ts ! i = ps ! i)"
    using agree by metis
  show "(\<exists>d. parse_url url_format url = Inr d) \<longleftrightarrow>
          (\<forall>i < length ts. spec_parse_placeholder (ts ! i) = None \<longrightarrow> ts ! i = ps ! i)"
    unfolding parse_url_ok_iff_nth [OF ts ps len] by (rule lits)
  {
    fix d i ty name
    assume d: "parse_url url_format url = Inr d"
    assume h: "i < length ts \<and> ts ! i \<noteq> ps ! i \<and>
               spec_parse_placeholder (ts ! i) = Some (ty, name) \<and>
               (\<forall>j. i < j \<and> j < length ts \<and> ts ! j \<noteq> ps ! j \<longrightarrow>
                  (\<forall>ty'. spec_parse_placeholder (ts ! j) \<noteq> Some (ty', name)))"
    then have i: "i < length ts" and ne: "ts ! i \<noteq> ps ! i"
      and sp: "spec_parse_placeholder (ts ! i) = Some (ty, name)"
      and later: "\<forall>j. i < j \<and> j < length ts \<and> ts ! j \<noteq> ps ! j \<longrightarrow>
                  (\<forall>ty'. spec_parse_placeholder (ts ! j) \<noteq> Some (ty', name))"
      by blast+
    from sp have m: "URL_PARAMS_TYPE_FINDER_match (ts ! i) = Some (ty, name)"
      by (rule spec_placeholder_is_matched)
    have later': "\<forall>j. i < j \<and> j < length ts \<and> ts ! j \<noteq> ps ! j \<longrightarrow>
                  (\<forall>ty'. URL_PARAMS_TYPE_FINDER_match (ts ! j) \<noteq> Some (ty', name))"
      using later agree by metis
    show "map_of d name = Some (ps ! i)"
      by (rule parse_url_binds_nth [OF ts ps len d i ne m later'])
  }
  {
    fix d name v
    assume d: "parse_url url_format url = Inr d" and mv: "map_of d name = Some v"
    from parse_url_origin_nth [OF ts ps len d mv]
    obtain i ty where i: "i < length ts" "ts ! i \<noteq> ps ! i"
      "URL_PARAMS_TYPE_FINDER_match (ts ! i) = Some (ty, name)" "ps ! i = v" by blast
    with agree [of i] have "spec_parse_placeholder (ts ! i) = Some (ty, name)" by simp
    with i show "\<exists>i ty. i < length ts \<and> ts ! i \<noteq> ps ! i \<and>
          spec_parse_placeholder (ts ! i) = Some (ty, name) \<and> ps ! i = v"
      by blast
  }
qed

theorem parse_url_matches_witness:
  "(\<exists>d. parse_url ''/items/<int:id>/<name>'' ''/items/42/x'' = Inr d) \<and>
   parse_url ''/items/<int:id>/<name>'' ''/items/42/x'' = Inr [(''id'', ''42''), (''name'', ''x'')] \<and>
   spec_parse_placeholder ''<int:id>'' = Some (Some ''int'', ''id'') \<and>
   map_of [(''id'', ''42''), (''name'', ''x'')] ''id'' =
     Some ([[], ''items'', ''42'', ''x''] ! 2)"
proof -
  let ?ts = "[[], ''items'', ''<int:id>'', ''<name>'']"
  let ?ps = "[[], ''items'', ''42'', ''x'']"
  have ts: "?ts = str_split CHR ''/'' ''/items/<int:id>/<name>''" by code_simp
  have ps: "?ps = str_split CHR ''/'' ''/items/42/x''" by code_simp
  have len: "length ?ts = length ?ps" by simp
  have s2: "spec_parse_placeholder ''<int:id>'' = Some (Some ''int'', ''id'')" by code_simp
  have s3: "spec_parse_placeholder ''<name>'' = Some (None, ''name'')" by code_simp
  have reg: "\<forall>i < length ?ts. ?ts ! i \<noteq> ?ps ! i \<and>
      URL_PARAMS_TYPE_FINDER_match (?ts ! i) \<noteq> None \<longrightarrow> spec_parse_placeholder (?ts ! i) \<noteq> None"
    using s2 s3 by (auto simp add: less_Suc_eq)
  note T = parse_url_matches [OF ts ps len reg]
  have pr: "parse_url ''/items/<int:id>/<name>'' ''/items/42/x'' =
      Inr [(''id'', ''42''), (''name'', ''x'')]"
    by code_simp
  have lits: "\<forall>i < length ?ts. spec_parse_placeholder (?ts ! i) = None \<longrightarrow> ?ts ! i = ?ps ! i"
    using s2 s3 by (auto simp add: less_Suc_eq)
  from T [THEN conjunct1, THEN iffD2, OF lits]
  have ex: "\<exists>d. parse_url ''/items/<int:id>/<name>'' ''/items/42/x'' = Inr d" .
  have hyp: "2 < length ?ts \<and> ?ts ! 2 \<noteq> ?ps ! 2 \<and>
       spec_parse_placeholder (?ts ! 2) = Some (Some ''int'', ''id'') \<and>
       (\<forall>j. 2 < j \<and> j < length ?ts \<and> ?ts ! j \<noteq> ?ps ! j \<longrightarrow>
          (\<forall>ty'. spec_parse_placeholder (?ts ! j) \<noteq> Some (ty', ''id'')))"
    using s2 s3 by (auto simp add: less_Suc_eq numeral_3_eq_3)
  from T [THEN conjunct2, THEN spec, THEN mp, OF pr, THEN conjunct1,
          THEN spec, THEN spec, THEN spec, THEN mp, OF hyp]
  have b: "map_of [(''id'', ''42''), (''name'', ''x'')] ''id'' = Some (?ps ! 2)" .
  from ex pr s2 b show ?thesis by (intro conjI)
qed

theorem parse_url_unbound_placeholder_counterexample:
  "length (str_split CHR ''/'' ''/items/<id>'') = length (str_split CHR ''/'' ''/items/<id>'') \<and>
   str_split CHR ''/'' ''/items/<id>'' = [[], ''items'', ''<id>''] \<and>
   spec_parse_placeholder ''<id>'' = Some (None, ''id'') \<and>
   parse_url ''/items/<id>'' ''/items/<id>'' = Inr [] \<and>
   str_split CHR ''/'' ''/<a>/<a>'' = [[], ''<a>'', ''<a>''] \<and>
   str_split CHR ''/'' ''/1/2'' = [[], ''1'', ''2''] \<and>
   spec_parse_placeholder ''<a>'' = Some (None, ''a'') \<and>
   parse_url ''/<a>/<a>'' ''/1/2'' = Inr [(''a'', ''2'')] \<and>
   str_split CHR ''/'' ''/items/<id>tail'' = [[], ''items'', ''<id>tail''] \<and>
   str_split CHR ''/'' ''/items/5'' = [[], ''items'', ''5''] \<and>
   spec_parse_placeholder ''<id>tail'' = None \<and>
   parse_url ''/items/<id>tail'' ''/items/5'' = Inr [(''id'', ''5'')]"
  by code_simp


subsection \<open>Claims about paths that do not convert\<close>

lemma first_valid_drops:
  "\<not> validate_method r m \<or> validate_url lib r url = Inr False \<Longrightarrow>
   first_valid lib (pre @ r # post) url m = first_valid lib (pre @ post) url m"
  by (induction pre) (auto split: sum.splits)

lemma DefaultRoute_lookup:
  assumes none: "first_valid lib (all_routes st) url m = Inr None"
    and self: "self < length (default_route st)"
    and dr: "default_route st ! self = DefaultRoute du dms dfs dh"
  shows "Router_get_handler lib self url m st = Inr (dh, None)"
    and "Router_get_handler lib self url m (Router_set_default_handler self h' st) = Inr (h', None)"
  using assms
  by (simp_all add: Router_get_handler_def RouteSet_get_route_def Router_set_default_handler_def
        RouteSet_set_default_route_handler_def)

lemma parse_url_error: "parse_url url_format url = Inl e \<Longrightarrow> e = UrlFormatError"
  by (auto simp add: parse_url_def Let_def split: if_splits dest: parse_url_loop_error)

lemma parse_url_lengths:
  "parse_url url_format url = Inr d \<Longrightarrow>
   length (str_split CHR ''/'' url_format) = length (str_split CHR ''/'' url)"
  by (auto simp add: parse_url_def Let_def split: if_splits)

text \<open>
  The dictionary of \<^verbatim>\<open>parse_url\<close> keeps its keys in the order of their first
  assignment. The keys that stand before a name were assigned at positions before the
  first position that binds the name.
\<close>

lemma dict_set_entry_kept:
  "k \<notin> fst ` set e1 \<Longrightarrow>
   \<exists>e1' v' e2'. dict_set (e1 @ (k, v) # e2) n x = e1' @ (k, v') # e2' \<and> map fst e1' = map fst e1"
proof (induction e1)
  case Nil
  show ?case
  proof (cases "k = n")
    case True
    then have "dict_set ([] @ (k, v) # e2) n x = [] @ (k, x) # e2 \<and> map fst [] = map fst []"
      by (simp add: dict_set_def)
    then show ?thesis by blast
  next
    case False
    then have "dict_set ([] @ (k, v) # e2) n x = [] @ (k, v) # AList.update n x e2 \<and>
        map fst [] = map fst []"
      by (simp add: dict_set_def)
    then show ?thesis by blast
  qed
next
  case (Cons a e1)
  obtain ka va where a: "a = (ka, va)" by (cases a)
  from Cons.prems a have k: "k \<notin> fst ` set e1" and ne: "ka \<noteq> k" by auto
  show ?case
  proof (cases "ka = n")
    case True
    with a have "dict_set ((a # e1) @ (k, v) # e2) n x = ((n, x) # e1) @ (k, v) # e2 \<and>
        map fst ((n, x) # e1) = map fst (a # e1)"
      by (simp add: dict_set_def)
    then show ?thesis by blast
  next
    case False
    from Cons.IH [OF k] obtain e1' v' e2' where
      e: "dict_set (e1 @ (k, v) # e2) n x = e1' @ (k, v') # e2'" "map fst e1' = map fst e1"
      by blast
    with a False have "dict_set ((a # e1) @ (k, v) # e2) n x = (a # e1') @ (k, v') # e2' \<and>
        map fst (a # e1') = map fst (a # e1)"
      by (simp add: dict_set_def)
    then show ?thesis by blast
  qed
qed

lemma parse_url_loop_entry_kept:
  "parse_url_loop xs a = Inr d \<Longrightarrow> a = e1 @ (k, v) # e2 \<Longrightarrow> k \<notin> fst ` set e1 \<Longrightarrow>
   \<exists>e1' v' e2'. d = e1' @ (k, v') # e2' \<and> map fst e1' = map fst e1"
proof (induction xs arbitrary: a e1 v e2)
  case Nil
  then show ?case by auto
next
  case (Cons p xs)
  obtain f r where p: "p = (f, r)" by (cases p)
  show ?case
  proof (cases "f = r")
    case True
    with Cons.prems p have "parse_url_loop xs a = Inr d" by simp
    from Cons.IH [OF this Cons.prems(2,3)] show ?thesis .
  next
    case False
    with Cons.prems(1) p obtain ty n where
      m: "URL_PARAMS_TYPE_FINDER_match f = Some (ty, n)"
      and rest: "parse_url_loop xs (dict_set a n r) = Inr d"
      by (auto split: option.splits)
    from dict_set_entry_kept [OF Cons.prems(3), of v e2 n r] Cons.prems(2)
    obtain e1' v' e2' where
      e: "dict_set a n r = e1' @ (k, v') # e2'" "map fst e1' = map fst e1"
      by blast
    from e(2) have "fst ` set e1' = fst ` set e1" by (metis set_map)
    with Cons.prems(3) have k: "k \<notin> fst ` set e1'" by simp
    from Cons.IH [OF rest e(1) k] e(2) show ?thesis by auto
  qed
qed

lemma dict_set_new_entry:
  "\<exists>e1 e2. dict_set a k v = e1 @ (k, v) # e2 \<and> k \<notin> fst ` set e1 \<and> fst ` set e1 \<subseteq> fst ` set a"
proof (induction a)
  case Nil
  show ?case
  proof (intro exI conjI)
    show "dict_set [] k v = [] @ (k, v) # []" by (simp add: dict_set_def)
  qed simp_all
next
  case (Cons p a)
  obtain kp vp where p: "p = (kp, vp)" by (cases p)
  show ?case
  proof (cases "kp = k")
    case True
    show ?thesis
    proof (intro exI conjI)
      show "dict_set (p # a) k v = [] @ (k, v) # a" using p True by (simp add: dict_set_def)
    qed simp_all
  next
    case False
    from Cons.IH obtain e1 e2 where
      e: "dict_set a k v = e1 @ (k, v) # e2" "k \<notin> fst ` set e1" "fst ` set e1 \<subseteq> fst ` set a"
      by blast
    from p False have u: "dict_set (p # a) k v = p # dict_set a k v"
      by (simp add: dict_set_def)
    show ?thesis
    proof (intro exI conjI)
      show "dict_set (p # a) k v = (p # e1) @ (k, v) # e2" by (simp add: u e(1))
      show "k \<notin> fst ` set (p # e1)" using e(2) p False by simp
      show "fst ` set (p # e1) \<subseteq> fst ` set (p # a)" using e(3) by auto
    qed
  qed
qed

lemma parse_url_loop_keys:
  assumes "parse_url_loop xs d0 = Inr d" and "k \<in> fst ` set d"
  shows "k \<in> fst ` set d0 \<or>
     (\<exists>p \<in> set xs. fst p \<noteq> snd p \<and> (\<exists>ty. URL_PARAMS_TYPE_FINDER_match (fst p) = Some (ty, k)))"
proof -
  from assms(2) have "map_of d k \<noteq> None" unfolding map_of_eq_None_iff by simp
  then obtain v where v: "map_of d k = Some v" by auto
  from parse_url_loop_origin [OF assms(1) v]
  show ?thesis
  proof
    assume "map_of d0 k = Some v"
    then have "(k, v) \<in> set d0" by (rule map_of_SomeD)
    then have "k \<in> fst ` set d0" by force
    then show ?thesis by simp
  next
    assume "\<exists>p \<in> set xs. fst p \<noteq> snd p \<and> snd p = v \<and>
      (\<exists>ty. URL_PARAMS_TYPE_FINDER_match (fst p) = Some (ty, k))"
    then show ?thesis by blast
  qed
qed

lemma parse_url_loop_entry:
  assumes run: "parse_url_loop (xs1 @ (f, r) # xs2) [] = Inr d"
    and ne: "f \<noteq> r" and m: "URL_PARAMS_TYPE_FINDER_match f = Some (ty, name)"
  shows "\<exists>d1 v d2. d = d1 @ (name, v) # d2 \<and> name \<notin> fst ` set d1 \<and>
     (\<forall>k \<in> fst ` set d1. \<exists>p \<in> set xs1. fst p \<noteq> snd p \<and>
         (\<exists>ty. URL_PARAMS_TYPE_FINDER_match (fst p) = Some (ty, k)))"
proof -
  from run obtain a where
    a: "parse_url_loop xs1 [] = Inr a" and
    rest: "parse_url_loop ((f, r) # xs2) a = Inr d"
    by (auto simp add: parse_url_loop_append split: sum.splits)
  from rest ne m have rest': "parse_url_loop xs2 (dict_set a name r) = Inr d" by simp
  from dict_set_new_entry [of a name r] obtain e1 e2 where
    e: "dict_set a name r = e1 @ (name, r) # e2" "name \<notin> fst ` set e1"
       "fst ` set e1 \<subseteq> fst ` set a"
    by blast
  from parse_url_loop_entry_kept [OF rest' e(1) e(2)] obtain e1' v' e2' where
    d: "d = e1' @ (name, v') # e2'" "map fst e1' = map fst e1"
    by blast
  from d(2) have keys: "fst ` set e1' = fst ` set e1" by (metis set_map)
  have cov: "\<forall>k \<in> fst ` set e1'. \<exists>p \<in> set xs1. fst p \<noteq> snd p \<and>
         (\<exists>ty. URL_PARAMS_TYPE_FINDER_match (fst p) = Some (ty, k))"
  proof
    fix k assume "k \<in> fst ` set e1'"
    with keys e(3) have "k \<in> fst ` set a" by auto
    from parse_url_loop_keys [OF a this]
    show "\<exists>p \<in> set xs1. fst p \<noteq> snd p \<and>
         (\<exists>ty. URL_PARAMS_TYPE_FINDER_match (fst p) = Some (ty, k))"
      by simp
  qed
  show ?thesis
  proof (intro exI conjI)
    show "d = e1' @ (name, v') # e2'" by (rule d(1))
    show "name \<notin> fst ` set e1'" using keys e(2) by simp
    show "\<forall>k \<in> fst ` set e1'. \<exists>p \<in> set xs1. fst p \<noteq> snd p \<and>
         (\<exists>ty. URL_PARAMS_TYPE_FINDER_match (fst p) = Some (ty, k))" by (rule cov)
  qed
qed

text \<open>
  \<^verbatim>\<open>all\<close> stops at the first value that its formatter does not convert. When every key
  before that value has a formatter, no \<^verbatim>\<open>KeyError\<close> is raised on the way.
\<close>

lemma all_is_convertable_False_at:
  "\<forall>p \<in> set d1. map_of fm (fst p) \<noteq> None \<Longrightarrow> map_of fm k = Some f \<Longrightarrow>
   \<not> is_convertable lib f v \<Longrightarrow>
   all_is_convertable lib fm (d1 @ (k, v) # d2) = Inr False"
  by (induction d1) auto


lemma in_set_take_nth:
  "p \<in> set (take n xs) \<Longrightarrow> \<exists>j. j < n \<and> j < length xs \<and> p = xs ! j"
proof -
  assume "p \<in> set (take n xs)"
  then obtain k where k: "k < length (take n xs)" "p = take n xs ! k"
    by (auto simp add: in_set_conv_nth)
  then have "k < n" "k < length xs" "p = xs ! k" by auto
  then show ?thesis by (intro exI[of _ k]) simp
qed

lemma last_position:
  fixes P :: "nat \<Rightarrow> bool"
  assumes "P i" and "\<forall>j. P j \<longrightarrow> j < n"
  shows "\<exists>l. i \<le> l \<and> P l \<and> (\<forall>j. l < j \<longrightarrow> \<not> P j)"
proof -
  have b: "\<And>j. P j \<Longrightarrow> j \<le> n" using assms(2) by (simp add: less_imp_le)
  have 1: "P (Greatest P)" using assms(1) b by (rule GreatestI_nat)
  have 2: "i \<le> Greatest P" using assms(1) b by (rule Greatest_le_nat)
  have 3: "\<forall>j. Greatest P < j \<longrightarrow> \<not> P j"
  proof (intro allI impI notI)
    fix j assume "Greatest P < j" "P j"
    from this(2) b have "j \<le> Greatest P" by (rule Greatest_le_nat)
    with \<open>Greatest P < j\<close> show False by simp
  qed
  from 1 2 3 show ?thesis by blast
qed

text \<open>
  The route built from a URL format answers false, without raising, to a path that
  binds a name of type \<^verbatim>\<open>int\<close> to a value that \<^verbatim>\<open>int\<close> does not convert.
\<close>

lemma SimpleRoute_validate_url_unconvertible:
  assumes fm: "from_url_get_required_params url_format = Inr fm"
    and toks: "URL_PARAMS_FINDER_findall url_format = pre_t @ tok # post_t"
    and tok: "URL_PARAMS_TYPE_FINDER_match tok = Some (Some ''int'', name)"
    and last_tok: "\<forall>t \<in> set post_t. \<forall>ty. URL_PARAMS_TYPE_FINDER_match t \<noteq> Some (ty, name)"
    and ts: "ts = str_split CHR ''/'' url_format"
    and ps: "ps = str_split CHR ''/'' url"
    and i: "i < length ts" "i < length ps"
    and ph: "URL_PARAMS_TYPE_FINDER_match (ts ! i) = Some (ty_i, name)"
    and seg: "ps ! i \<noteq> ts ! i" "py_int (ps ! i) = None"
    and later: "\<forall>j. i < j \<and> j < length ts \<and> j < length ps \<and> ts ! j \<noteq> ps ! j \<and>
                  (\<exists>ty. URL_PARAMS_TYPE_FINDER_match (ts ! j) = Some (ty, name)) \<longrightarrow>
                  py_int (ps ! j) = None"
    and cov: "\<forall>j < i. ts ! j \<noteq> ps ! j \<longrightarrow>
                (\<forall>ty n. URL_PARAMS_TYPE_FINDER_match (ts ! j) = Some (ty, n) \<longrightarrow>
                   (\<exists>t \<in> set (URL_PARAMS_FINDER_findall url_format).
                      \<exists>ty'. URL_PARAMS_TYPE_FINDER_match t = Some (ty', n)))"
  shows "SimpleRoute_validate_url lib url_format fm url = Inr False"
proof (cases "parse_url url_format url")
  case (Inl e)
  with parse_url_error [OF Inl] show ?thesis
    by (simp add: SimpleRoute_validate_url_def)
next
  case (Inr d)
  let ?z = "zip ts ps"
  from parse_url_lengths [OF Inr] ts ps have len: "length ts = length ps" by simp
  have lz: "length ?z = length ts" using len by simp
  have nz: "\<And>j. j < length ts \<Longrightarrow> ?z ! j = (ts ! j, ps ! j)" using len by simp
  from Inr parse_url_zip [OF ts ps len] have run: "parse_url_loop ?z [] = Inr d" by simp
  from fm toks have loop: "required_params_loop (pre_t @ tok # post_t) [] = Inr fm"
    by (simp add: from_url_get_required_params_def)
  from required_params_loop_binds [OF loop tok last_tok]
  have fn: "map_of fm name = Some Conv_int" by (simp add: PARAM_TYPE_MAPPER_def)
  have split: "?z = take i ?z @ (ts ! i, ps ! i) # drop (Suc i) ?z"
    using i lz nz [OF i(1)] by (metis id_take_nth_drop)
  from run split have run': "parse_url_loop (take i ?z @ (ts ! i, ps ! i) # drop (Suc i) ?z) [] = Inr d"
    by simp
  from seg(1) have ne: "ts ! i \<noteq> ps ! i" by auto
  from parse_url_loop_entry [OF run' ne ph] obtain d1 v d2 where
    d: "d = d1 @ (name, v) # d2" and fresh: "name \<notin> fst ` set d1"
    and before: "\<forall>k \<in> fst ` set d1. \<exists>p \<in> set (take i ?z). fst p \<noteq> snd p \<and>
         (\<exists>ty. URL_PARAMS_TYPE_FINDER_match (fst p) = Some (ty, k))"
    by blast
  have keys: "\<forall>p \<in> set d1. map_of fm (fst p) \<noteq> None"
  proof
    fix p assume "p \<in> set d1"
    then have "fst p \<in> fst ` set d1" by simp
    with before obtain q ty where q: "q \<in> set (take i ?z)" "fst q \<noteq> snd q"
      "URL_PARAMS_TYPE_FINDER_match (fst q) = Some (ty, fst p)" by blast
    from in_set_take_nth [OF q(1)] obtain j where j: "j < i" "j < length ?z" "q = ?z ! j"
      by blast
    with lz nz have qj: "q = (ts ! j, ps ! j)" by simp
    with q(2,3) have "ts ! j \<noteq> ps ! j"
      "URL_PARAMS_TYPE_FINDER_match (ts ! j) = Some (ty, fst p)" by simp_all
    with cov j(1) have "\<exists>t \<in> set (URL_PARAMS_FINDER_findall url_format).
        \<exists>ty'. URL_PARAMS_TYPE_FINDER_match t = Some (ty', fst p)" by blast
    then have "map_of [] (fst p) \<noteq> (None :: UrlParamFormatter option) \<or>
        (\<exists>t \<in> set (URL_PARAMS_FINDER_findall url_format).
           \<exists>ty. URL_PARAMS_TYPE_FINDER_match t = Some (ty, fst p))" by simp
    from required_params_loop_covers [OF fm [unfolded from_url_get_required_params_def] this]
    show "map_of fm (fst p) \<noteq> None" .
  qed
  from fresh have "map_of d1 name = None" by (simp add: map_of_eq_None_iff)
  with d have dv: "map_of d name = Some v" by (simp add: map_add_def)
  let ?P = "\<lambda>j. j < length ts \<and> ts ! j \<noteq> ps ! j \<and>
                (\<exists>ty. URL_PARAMS_TYPE_FINDER_match (ts ! j) = Some (ty, name))"
  have Pi: "?P i" using i ne ph by blast
  have bound: "\<forall>j. ?P j \<longrightarrow> j < length ts" by simp
  from last_position [of ?P, OF Pi bound] obtain l where
    l: "i \<le> l" "?P l" "\<forall>j. l < j \<longrightarrow> \<not> ?P j" by blast
  from l(2) obtain ty_l where ml: "URL_PARAMS_TYPE_FINDER_match (ts ! l) = Some (ty_l, name)"
    and ll: "l < length ts" and nl: "ts ! l \<noteq> ps ! l" by blast
  from l(3) have later_l: "\<forall>j. l < j \<and> j < length ts \<and> ts ! j \<noteq> ps ! j \<longrightarrow>
      (\<forall>ty'. URL_PARAMS_TYPE_FINDER_match (ts ! j) \<noteq> Some (ty', name))" by blast
  from parse_url_binds_nth [OF ts ps len Inr ll nl ml later_l] dv
  have v: "v = ps ! l" by simp
  have "py_int (ps ! l) = None"
  proof (cases "l = i")
    case True
    with seg(2) show ?thesis by simp
  next
    case False
    with l(1) have "i < l" by simp
    with later ll len nl ml show ?thesis by auto
  qed
  with v have nc: "\<not> is_convertable lib Conv_int v"
    by (simp add: is_convertable_def convert_def)
  from all_is_convertable_False_at [OF keys fn nc, of d2] d Inr show ?thesis
    by (simp add: SimpleRoute_validate_url_def)
qed


text \<open>
  Claim C8, as amended. Take the \<^verbatim>\<open>SimpleRoute\<close> that the constructor builds from a URL
  format in which the last placeholder token carrying the name \<open>name\<close> has the type
  \<^verbatim>\<open>int\<close>. Take a path and a position \<open>i\<close> whose segment in the format is read as the
  parameter \<open>name\<close>, where the segment of the path is not the text of the placeholder
  itself and is not convertible by \<^verbatim>\<open>int\<close>. Let every later position that binds
  \<open>name\<close> to a differing segment of the path carry a value that \<^verbatim>\<open>int\<close> does not
  convert either, and let every parameter bound before position \<open>i\<close> be the name of a
  placeholder token of the format. Then the route's \<^verbatim>\<open>validate_url\<close> answers false
  without raising, and the scan of the route list goes on with the routes after it as if
  the route were not registered. When all other routes reject the lookup as well,
  \<^verbatim>\<open>get_handler\<close> returns the handler of the default route with an absent parameter
  mapping, and after \<^verbatim>\<open>set_default_handler\<close> it returns the new handler. The
  counterexample after the witness has a route for each hypothesis: a path that repeats
  the text of the placeholder, a later placeholder token that gives the name the string
  converter, a later position that binds the name to a convertible value, and a parameter
  bound before position \<open>i\<close> that has no formatter, where \<^verbatim>\<open>validate_url\<close> raises as
  in claim C4. The first three validate the path.
\<close>

theorem unconvertible_int_segment_falls_through:
  assumes init: "SimpleRoute_init url_format h methods = Inr r"
    and toks: "URL_PARAMS_FINDER_findall url_format = pre_t @ tok # post_t"
    and tok: "URL_PARAMS_TYPE_FINDER_match tok = Some (Some ''int'', name)"
    and last_tok: "\<forall>t \<in> set post_t. \<forall>ty. URL_PARAMS_TYPE_FINDER_match t \<noteq> Some (ty, name)"
    and ts: "ts = str_split CHR ''/'' url_format"
    and ps: "ps = str_split CHR ''/'' url"
    and i: "i < length ts" "i < length ps"
    and ph: "URL_PARAMS_TYPE_FINDER_match (ts ! i) = Some (ty_i, name)"
    and seg: "ps ! i \<noteq> ts ! i" "py_int (ps ! i) = None"
    and later: "\<forall>j. i < j \<and> j < length ts \<and> j < length ps \<and> ts ! j \<noteq> ps ! j \<and>
                  (\<exists>ty. URL_PARAMS_TYPE_FINDER_match (ts ! j) = Some (ty, name)) \<longrightarrow>
                  py_int (ps ! j) = None"
    and cov: "\<forall>j < i. ts ! j \<noteq> ps ! j \<longrightarrow>
                (\<forall>ty n. URL_PARAMS_TYPE_FINDER_match (ts ! j) = Some (ty, n) \<longrightarrow>
                   (\<exists>t \<in> set (URL_PARAMS_FINDER_findall url_format).
                      \<exists>ty'. URL_PARAMS_TYPE_FINDER_match t = Some (ty', n)))"
  shows "validate_url lib r url = Inr False \<and>
         first_valid lib (pre @ r # post) url m = first_valid lib (pre @ post) url m \<and>
         ((\<forall>x \<in> set (pre @ post). \<not> validate_method x m \<or> validate_url lib x url = Inr False) \<and>
          all_routes st = pre @ r # post \<and> self < length (default_route st) \<and>
          default_route st ! self = DefaultRoute du dms dfs dh \<longrightarrow>
            Router_get_handler lib self url m st = Inr (dh, None) \<and>
            Router_get_handler lib self url m (Router_set_default_handler self h' st) =
              Inr (h', None))"
proof -
  from init obtain fm where fm: "from_url_get_required_params url_format = Inr fm"
    and r: "r = SimpleRoute url_format methods fm h"
    by (auto simp add: SimpleRoute_init_def split: sum.splits)
  have v: "validate_url lib r url = Inr False"
    unfolding r validate_url.simps
    by (rule SimpleRoute_validate_url_unconvertible
          [OF fm toks tok last_tok ts ps i ph seg later cov])
  then have skip: "first_valid lib (pre @ r # post) url m = first_valid lib (pre @ post) url m"
    by (intro first_valid_drops) simp
  have dflt: "Router_get_handler lib self url m st = Inr (dh, None) \<and>
        Router_get_handler lib self url m (Router_set_default_handler self h' st) = Inr (h', None)"
    if h: "(\<forall>x \<in> set (pre @ post). \<not> validate_method x m \<or> validate_url lib x url = Inr False) \<and>
          all_routes st = pre @ r # post \<and> self < length (default_route st) \<and>
          default_route st ! self = DefaultRoute du dms dfs dh"
  proof -
    from h have "first_valid lib (pre @ post) url m = Inr None"
      unfolding first_valid_None by blast
    with skip h have none: "first_valid lib (all_routes st) url m = Inr None" by simp
    from h have self: "self < length (default_route st)"
      and dr: "default_route st ! self = DefaultRoute du dms dfs dh" by blast+
    from DefaultRoute_lookup [OF none self dr] show ?thesis by blast
  qed
  from v skip dflt show ?thesis by blast
qed


theorem unconvertible_int_segment_falls_through_witness:
  "validate_url example_lib
     (SimpleRoute ''/items/<int:id>'' [GET] [(''id'', Conv_int)] ''h'') ''/items/abc'' = Inr False \<and>
   Router_get_handler example_lib 0 ''/items/abc'' GET
     \<lparr>all_routes = [SimpleRoute ''/other'' [GET] [] ''o'',
                    SimpleRoute ''/items/<int:id>'' [GET] [(''id'', Conv_int)] ''h'',
                    SimpleRoute ''/items/<name>'' [POST] [(''name'', Conv_str)] ''p''],
      default_route = [DefaultRoute [] [] [] ''fallback'']\<rparr> = Inr (''fallback'', None) \<and>
   Router_get_handler example_lib 0 ''/items/abc'' GET
     (Router_set_default_handler 0 ''not_found''
        \<lparr>all_routes = [SimpleRoute ''/other'' [GET] [] ''o'',
                       SimpleRoute ''/items/<int:id>'' [GET] [(''id'', Conv_int)] ''h'',
                       SimpleRoute ''/items/<name>'' [POST] [(''name'', Conv_str)] ''p''],
         default_route = [DefaultRoute [] [] [] ''fallback'']\<rparr>) = Inr (''not_found'', None) \<and>
   first_valid example_lib
     [SimpleRoute ''/other'' [GET] [] ''o'',
      SimpleRoute ''/items/<int:id>'' [GET] [(''id'', Conv_int)] ''h'',
      SimpleRoute ''/items/<name>'' [GET] [(''name'', Conv_str)] ''q''] ''/items/abc'' GET =
     Inr (Some (SimpleRoute ''/items/<name>'' [GET] [(''name'', Conv_str)] ''q'')) \<and>
   validate_url example_lib
     (SimpleRoute ''/<a>/<int:a>'' [GET] [(''a'', Conv_int)] ''g'') ''/abc/x'' = Inr False \<and>
   validate_url example_lib
     (SimpleRoute ''/<int:a>/<b>.<c>'' [GET]
        [(''a'', Conv_int), (''b'', Conv_str), (''c'', Conv_str)] ''k'') ''/x/y'' = Inr False"
proof -
  let ?o = "SimpleRoute ''/other'' [GET] [] ''o''"
  let ?r = "SimpleRoute ''/items/<int:id>'' [GET] [(''id'', Conv_int)] ''h''"
  let ?p = "SimpleRoute ''/items/<name>'' [POST] [(''name'', Conv_str)] ''p''"
  let ?q = "SimpleRoute ''/items/<name>'' [GET] [(''name'', Conv_str)] ''q''"
  let ?g = "SimpleRoute ''/<a>/<int:a>'' [GET] [(''a'', Conv_int)] ''g''"
  let ?st = "\<lparr>all_routes = [?o, ?r, ?p], default_route = [DefaultRoute [] [] [] ''fallback'']\<rparr>"
  let ?ts = "[[], ''items'', ''<int:id>'']"
  let ?ps = "[[], ''items'', ''abc'']"
  have init: "SimpleRoute_init ''/items/<int:id>'' ''h'' [GET] = Inr ?r" by code_simp
  have toks: "URL_PARAMS_FINDER_findall ''/items/<int:id>'' = [] @ ''<int:id>'' # []"
    by code_simp
  have tok: "URL_PARAMS_TYPE_FINDER_match ''<int:id>'' = Some (Some ''int'', ''id'')"
    by code_simp
  have last_tok: "\<forall>t \<in> set []. \<forall>ty. URL_PARAMS_TYPE_FINDER_match t \<noteq> Some (ty, ''id'')"
    by simp
  have ts: "?ts = str_split CHR ''/'' ''/items/<int:id>''" by code_simp
  have ps: "?ps = str_split CHR ''/'' ''/items/abc''" by code_simp
  have i: "2 < length ?ts" "2 < length ?ps" by simp_all
  have ph: "URL_PARAMS_TYPE_FINDER_match (?ts ! 2) = Some (Some ''int'', ''id'')"
    using tok by simp
  have abc: "py_int ''abc'' = None" by code_simp
  have seg: "?ps ! 2 \<noteq> ?ts ! 2" "py_int (?ps ! 2) = None" using abc by simp_all
  have later: "\<forall>j. 2 < j \<and> j < length ?ts \<and> j < length ?ps \<and> ?ts ! j \<noteq> ?ps ! j \<and>
                  (\<exists>ty. URL_PARAMS_TYPE_FINDER_match (?ts ! j) = Some (ty, ''id'')) \<longrightarrow>
                  py_int (?ps ! j) = None"
    by auto
  have cov: "\<forall>j < 2. ?ts ! j \<noteq> ?ps ! j \<longrightarrow>
                (\<forall>ty n. URL_PARAMS_TYPE_FINDER_match (?ts ! j) = Some (ty, n) \<longrightarrow>
                   (\<exists>t \<in> set (URL_PARAMS_FINDER_findall ''/items/<int:id>'').
                      \<exists>ty'. URL_PARAMS_TYPE_FINDER_match t = Some (ty', n)))"
    by (auto simp add: less_Suc_eq numeral_2_eq_2)
  note T = unconvertible_int_segment_falls_through
    [where lib = example_lib and pre = "[?o]" and post = "[?p]" and m = GET and st = ?st
       and self = 0 and du = "[]" and dms = "[]" and dfs = "[]" and dh = "''fallback''"
       and h' = "''not_found''",
     OF init toks tok last_tok ts ps i ph seg later cov]
  have vo: "validate_url example_lib ?o ''/items/abc'' = Inr False" by code_simp
  have np: "\<not> validate_method ?p GET" by (simp add: validate_method_def)
  have hyp: "(\<forall>x \<in> set ([?o] @ [?p]). \<not> validate_method x GET \<or>
                validate_url example_lib x ''/items/abc'' = Inr False) \<and>
          all_routes ?st = [?o] @ ?r # [?p] \<and> 0 < length (default_route ?st) \<and>
          default_route ?st ! 0 = DefaultRoute [] [] [] ''fallback''"
    using vo np by simp
  note D = T [THEN conjunct2, THEN conjunct2, THEN mp, OF hyp]
  note T2 = unconvertible_int_segment_falls_through
    [where lib = example_lib and pre = "[?o]" and post = "[?q]" and m = GET,
     OF init toks tok last_tok ts ps i ph seg later cov]
  have fq: "first_valid example_lib ([?o] @ [?q]) ''/items/abc'' GET = Inr (Some ?q)"
    by code_simp
  from T2 [THEN conjunct2, THEN conjunct1] fq
  have through: "first_valid example_lib [?o, ?r, ?q] ''/items/abc'' GET = Inr (Some ?q)"
    by simp
  let ?ts3 = "[[], ''<a>'', ''<int:a>'']"
  let ?ps3 = "[[], ''abc'', ''x'']"
  have init3: "SimpleRoute_init ''/<a>/<int:a>'' ''g'' [GET] = Inr ?g" by code_simp
  have toks3: "URL_PARAMS_FINDER_findall ''/<a>/<int:a>'' = [''<a>''] @ ''<int:a>'' # []"
    by code_simp
  have tok3: "URL_PARAMS_TYPE_FINDER_match ''<int:a>'' = Some (Some ''int'', ''a'')"
    by code_simp
  have ts3: "?ts3 = str_split CHR ''/'' ''/<a>/<int:a>''" by code_simp
  have ps3: "?ps3 = str_split CHR ''/'' ''/abc/x''" by code_simp
  have i3: "1 < length ?ts3" "1 < length ?ps3" by simp_all
  have ma: "URL_PARAMS_TYPE_FINDER_match ''<a>'' = Some (None, ''a'')" by code_simp
  have ph3: "URL_PARAMS_TYPE_FINDER_match (?ts3 ! 1) = Some (None, ''a'')" using ma by simp
  have x: "py_int ''x'' = None" by code_simp
  have seg3: "?ps3 ! 1 \<noteq> ?ts3 ! 1" "py_int (?ps3 ! 1) = None" using abc by simp_all
  have later3: "\<forall>j. 1 < j \<and> j < length ?ts3 \<and> j < length ?ps3 \<and> ?ts3 ! j \<noteq> ?ps3 ! j \<and>
                  (\<exists>ty. URL_PARAMS_TYPE_FINDER_match (?ts3 ! j) = Some (ty, ''a'')) \<longrightarrow>
                  py_int (?ps3 ! j) = None"
    using x by (auto simp add: less_Suc_eq numeral_3_eq_3)
  have cov3: "\<forall>j < 1. ?ts3 ! j \<noteq> ?ps3 ! j \<longrightarrow>
                (\<forall>ty n. URL_PARAMS_TYPE_FINDER_match (?ts3 ! j) = Some (ty, n) \<longrightarrow>
                   (\<exists>t \<in> set (URL_PARAMS_FINDER_findall ''/<a>/<int:a>'').
                      \<exists>ty'. URL_PARAMS_TYPE_FINDER_match t = Some (ty', n)))"
    by simp
  note T3 = unconvertible_int_segment_falls_through
    [where lib = example_lib and pre = "[]" and post = "[]" and m = GET,
     OF init3 toks3 tok3 _ ts3 ps3 i3 ph3 seg3 later3 cov3]
  have v3: "validate_url example_lib ?g ''/abc/x'' = Inr False"
    using T3 by simp
  let ?k = "SimpleRoute ''/<int:a>/<b>.<c>'' [GET]
              [(''a'', Conv_int), (''b'', Conv_str), (''c'', Conv_str)] ''k''"
  let ?ts4 = "[[], ''<int:a>'', ''<b>.<c>'']"
  let ?ps4 = "[[], ''x'', ''y'']"
  have init4: "SimpleRoute_init ''/<int:a>/<b>.<c>'' ''k'' [GET] = Inr ?k" by code_simp
  have toks4: "URL_PARAMS_FINDER_findall ''/<int:a>/<b>.<c>'' =
      [] @ ''<int:a>'' # [''<b>'', ''<c>'']"
    by code_simp
  have mb: "URL_PARAMS_TYPE_FINDER_match ''<b>'' = Some (None, ''b'')" by code_simp
  have mc: "URL_PARAMS_TYPE_FINDER_match ''<c>'' = Some (None, ''c'')" by code_simp
  have mbc: "URL_PARAMS_TYPE_FINDER_match ''<b>.<c>'' = Some (None, ''b>.<c'')" by code_simp
  have last_tok4: "\<forall>t \<in> set [''<b>'', ''<c>'']. \<forall>ty.
      URL_PARAMS_TYPE_FINDER_match t \<noteq> Some (ty, ''a'')"
    using mb mc by simp
  have ts4: "?ts4 = str_split CHR ''/'' ''/<int:a>/<b>.<c>''" by code_simp
  have ps4: "?ps4 = str_split CHR ''/'' ''/x/y''" by code_simp
  have i4: "1 < length ?ts4" "1 < length ?ps4" by simp_all
  have ph4: "URL_PARAMS_TYPE_FINDER_match (?ts4 ! 1) = Some (Some ''int'', ''a'')"
    using tok3 by simp
  have seg4: "?ps4 ! 1 \<noteq> ?ts4 ! 1" "py_int (?ps4 ! 1) = None" using x by simp_all
  have later4: "\<forall>j. 1 < j \<and> j < length ?ts4 \<and> j < length ?ps4 \<and> ?ts4 ! j \<noteq> ?ps4 ! j \<and>
                  (\<exists>ty. URL_PARAMS_TYPE_FINDER_match (?ts4 ! j) = Some (ty, ''a'')) \<longrightarrow>
                  py_int (?ps4 ! j) = None"
    using mbc by (auto simp add: less_Suc_eq numeral_3_eq_3)
  have cov4: "\<forall>j < 1. ?ts4 ! j \<noteq> ?ps4 ! j \<longrightarrow>
                (\<forall>ty n. URL_PARAMS_TYPE_FINDER_match (?ts4 ! j) = Some (ty, n) \<longrightarrow>
                   (\<exists>t \<in> set (URL_PARAMS_FINDER_findall ''/<int:a>/<b>.<c>'').
                      \<exists>ty'. URL_PARAMS_TYPE_FINDER_match t = Some (ty', n)))"
    by simp
  note T4 = unconvertible_int_segment_falls_through
    [where lib = example_lib and pre = "[]" and post = "[]" and m = GET,
     OF init4 toks4 tok3 last_tok4 ts4 ps4 i4 ph4 seg4 later4 cov4]
  have v4: "validate_url example_lib ?k ''/x/y'' = Inr False"
    using T4 by simp
  from T [THEN conjunct1] D [THEN conjunct1] D [THEN conjunct2] through v3 v4
  show ?thesis by (intro conjI)
qed

theorem int_placeholder_route_validates_counterexample:
  "SimpleRoute_init ''/items/<int:id>'' ''h'' [GET] =
     Inr (SimpleRoute ''/items/<int:id>'' [GET] [(''id'', Conv_int)] ''h'') \<and>
   str_split CHR ''/'' ''/items/<int:id>'' ! 2 = ''<int:id>'' \<and>
   py_int ''<int:id>'' = None \<and>
   validate_url example_lib
     (SimpleRoute ''/items/<int:id>'' [GET] [(''id'', Conv_int)] ''h'') ''/items/<int:id>'' = Inr True \<and>
   Router_get_handler example_lib 0 ''/items/<int:id>'' GET
     \<lparr>all_routes = [SimpleRoute ''/items/<int:id>'' [GET] [(''id'', Conv_int)] ''h''],
      default_route = [DefaultRoute [] [] [] ''fallback'']\<rparr> = Inr (''h'', Some []) \<and>
   SimpleRoute_init ''/<int:a>/<a>'' ''h'' [GET] =
     Inr (SimpleRoute ''/<int:a>/<a>'' [GET] [(''a'', Conv_str)] ''h'') \<and>
   str_split CHR ''/'' ''/<int:a>/<a>'' ! 1 = ''<int:a>'' \<and>
   str_split CHR ''/'' ''/abc/<a>'' ! 1 = ''abc'' \<and>
   py_int ''abc'' = None \<and>
   validate_url example_lib
     (SimpleRoute ''/<int:a>/<a>'' [GET] [(''a'', Conv_str)] ''h'') ''/abc/<a>'' = Inr True \<and>
   Router_get_handler example_lib 0 ''/abc/<a>'' GET
     \<lparr>all_routes = [SimpleRoute ''/<int:a>/<a>'' [GET] [(''a'', Conv_str)] ''h''],
      default_route = [DefaultRoute [] [] [] ''fallback'']\<rparr> =
     Inr (''h'', Some [(''a'', PyStr ''abc'')]) \<and>
   SimpleRoute_init ''/<int:a>/<int:a>'' ''h'' [GET] =
     Inr (SimpleRoute ''/<int:a>/<int:a>'' [GET] [(''a'', Conv_int)] ''h'') \<and>
   str_split CHR ''/'' ''/abc/5'' ! 1 = ''abc'' \<and>
   validate_url example_lib
     (SimpleRoute ''/<int:a>/<int:a>'' [GET] [(''a'', Conv_int)] ''h'') ''/abc/5'' = Inr True \<and>
   Router_get_handler example_lib 0 ''/abc/5'' GET
     \<lparr>all_routes = [SimpleRoute ''/<int:a>/<int:a>'' [GET] [(''a'', Conv_int)] ''h''],
      default_route = [DefaultRoute [] [] [] ''fallback'']\<rparr> =
     Inr (''h'', Some [(''a'', PyInt 5)]) \<and>
   SimpleRoute_init ''/<b>.<c>/<int:a>'' ''h'' [GET] =
     Inr (SimpleRoute ''/<b>.<c>/<int:a>'' [GET]
            [(''b'', Conv_str), (''c'', Conv_str), (''a'', Conv_int)] ''h'') \<and>
   str_split CHR ''/'' ''/<b>.<c>/<int:a>'' ! 2 = ''<int:a>'' \<and>
   str_split CHR ''/'' ''/x/abc'' ! 2 = ''abc'' \<and>
   validate_url example_lib
     (SimpleRoute ''/<b>.<c>/<int:a>'' [GET]
        [(''b'', Conv_str), (''c'', Conv_str), (''a'', Conv_int)] ''h'') ''/x/abc'' =
     Inl (KeyError ''b>.<c'')"
  by code_simp


subsection \<open>Claims about nested routes\<close>

text \<open>
  Claim C2, as amended. A \<^verbatim>\<open>SimpleRoute\<close> is registered for \<^verbatim>\<open>/a/<x>/<y>\<close>, and a
  \<^verbatim>\<open>NestedRoute\<close> wrapping it is registered at \<^verbatim>\<open>/a/<x>\<close> with the default parameters
  \<open>{y: "default"}\<close>. Where \<^verbatim>\<open>urljoin("/a/5/", "default")\<close> is \<^verbatim>\<open>/a/5/default\<close>, the lookup
  of \<^verbatim>\<open>/a/5\<close> returns what the mapped route's own \<^verbatim>\<open>parse_url\<close> returns for
  \<^verbatim>\<open>/a/5/default\<close>: the handler of the mapped route, with \<open>x\<close> bound to the string 5 and
  \<open>y\<close> to the string default. The URL of the nested route itself is never matched
  against a path: the mapped route reads the incoming path with the suffix appended. The
  counterexample after the witness registers the nested route at \<^verbatim>\<open>/short/<x>\<close>, as the
  claim has it; the lookup of \<^verbatim>\<open>/short/5\<close> then ends at the default route, because
  \<^verbatim>\<open>/short/5/default\<close> does not match \<^verbatim>\<open>/a/<x>/<y>\<close>.
\<close>

theorem nested_route_lookup:
  assumes join: "urljoin lib ''/a/5/'' ''default'' = Some ''/a/5/default''"
  shows
  "Router_add_route 0 ''/a/<x>/<y>'' (Callable h) [GET] []
     \<lparr>all_routes = [], default_route = [DefaultRoute [] [] [] default_handler]\<rparr> =
     (Inr (SimpleRoute ''/a/<x>/<y>'' [GET] [(''x'', Conv_str), (''y'', Conv_str)] h),
      \<lparr>all_routes = [SimpleRoute ''/a/<x>/<y>'' [GET] [(''x'', Conv_str), (''y'', Conv_str)] h],
       default_route = [DefaultRoute [] [] [] default_handler]\<rparr>) \<and>
   Router_add_route 0 ''/a/<x>''
     (RouteObject (SimpleRoute ''/a/<x>/<y>'' [GET] [(''x'', Conv_str), (''y'', Conv_str)] h))
     [GET] [(''y'', ''default'')]
     \<lparr>all_routes = [SimpleRoute ''/a/<x>/<y>'' [GET] [(''x'', Conv_str), (''y'', Conv_str)] h],
      default_route = [DefaultRoute [] [] [] default_handler]\<rparr> =
     (Inr (NestedRoute ''/a/<x>'' [GET]
             (SimpleRoute ''/a/<x>/<y>'' [GET] [(''x'', Conv_str), (''y'', Conv_str)] h)
             ''default''),
      \<lparr>all_routes =
         [SimpleRoute ''/a/<x>/<y>'' [GET] [(''x'', Conv_str), (''y'', Conv_str)] h,
          NestedRoute ''/a/<x>'' [GET]
            (SimpleRoute ''/a/<x>/<y>'' [GET] [(''x'', Conv_str), (''y'', Conv_str)] h)
            ''default''],
       default_route = [DefaultRoute [] [] [] default_handler]\<rparr>) \<and>
   Router_get_handler lib 0 ''/a/5'' GET
     \<lparr>all_routes =
         [SimpleRoute ''/a/<x>/<y>'' [GET] [(''x'', Conv_str), (''y'', Conv_str)] h,
          NestedRoute ''/a/<x>'' [GET]
            (SimpleRoute ''/a/<x>/<y>'' [GET] [(''x'', Conv_str), (''y'', Conv_str)] h)
            ''default''],
       default_route = [DefaultRoute [] [] [] default_handler]\<rparr> =
     Route_parse_url lib
       (SimpleRoute ''/a/<x>/<y>'' [GET] [(''x'', Conv_str), (''y'', Conv_str)] h)
       ''/a/5/default'' \<and>
   Route_parse_url lib
     (SimpleRoute ''/a/<x>/<y>'' [GET] [(''x'', Conv_str), (''y'', Conv_str)] h)
     ''/a/5/default'' =
     Inr (h, Some [(''x'', PyStr ''5''), (''y'', PyStr ''default'')])"
proof -
  let ?R = "SimpleRoute ''/a/<x>/<y>'' [GET] [(''x'', Conv_str), (''y'', Conv_str)] h"
  let ?N = "NestedRoute ''/a/<x>'' [GET] ?R ''default''"
  let ?S1 = "\<lparr>all_routes = [], default_route = [DefaultRoute [] [] [] default_handler]\<rparr>"
  let ?S2 = "\<lparr>all_routes = [?R], default_route = [DefaultRoute [] [] [] default_handler]\<rparr>"
  let ?S3 = "\<lparr>all_routes = [?R, ?N], default_route = [DefaultRoute [] [] [] default_handler]\<rparr>"
  have f1: "from_url_get_required_params ''/a/<x>/<y>'' =
      Inr [(''x'', Conv_str), (''y'', Conv_str)]" by code_simp
  have f2: "from_url_get_required_params_names ''/a/<x>/<y>'' = Inr [''x'', ''y'']"
    by code_simp
  have f3: "parse_url ''/a/<x>/<y>'' ''/a/5'' = Inl UrlFormatError" by code_simp
  have f4: "parse_url ''/a/<x>/<y>'' ''/a/5/default'' =
      Inr [(''x'', ''5''), (''y'', ''default'')]" by code_simp
  have a: "Router_add_route 0 ''/a/<x>/<y>'' (Callable h) [GET] [] ?S1 = (Inr ?R, ?S2)"
    by (simp add: Router_add_route_def register_route_def SimpleRoute_init_def f1
          RouteSet_add_route_def)
  have b: "Router_add_route 0 ''/a/<x>'' (RouteObject ?R) [GET] [(''y'', ''default'')] ?S2 =
      (Inr ?N, ?S3)"
    by (simp add: Router_add_route_def register_route_def NestedRoute_init_def f2
          RouteSet_add_route_def Route_eq_def)
  have p: "Route_parse_url lib ?R ''/a/5/default'' =
      Inr (h, Some [(''x'', PyStr ''5''), (''y'', PyStr ''default'')])"
    by (simp add: SimpleRoute_parse_url_def f4 convert_def dict_set_def)
  have c: "Router_get_handler lib 0 ''/a/5'' GET ?S3 = Route_parse_url lib ?R ''/a/5/default''"
    unfolding p
    by (simp add: Router_get_handler_def RouteSet_get_route_def validate_method_def
          SimpleRoute_validate_url_def SimpleRoute_parse_url_def f3 f4 join
          is_convertable_def convert_def dict_set_def)
  from a b c p show ?thesis by (intro conjI)
qed

theorem nested_route_lookup_witness:
  "urljoin example_lib ''/a/5/'' ''default'' = Some ''/a/5/default'' \<and>
   Router_get_handler example_lib 0 ''/a/5'' GET
     \<lparr>all_routes =
         [SimpleRoute ''/a/<x>/<y>'' [GET] [(''x'', Conv_str), (''y'', Conv_str)] ''h'',
          NestedRoute ''/a/<x>'' [GET]
            (SimpleRoute ''/a/<x>/<y>'' [GET] [(''x'', Conv_str), (''y'', Conv_str)] ''h'')
            ''default''],
       default_route = [DefaultRoute [] [] [] ''fallback'']\<rparr> =
     Inr (''h'', Some [(''x'', PyStr ''5''), (''y'', PyStr ''default'')])"
proof -
  have join: "urljoin example_lib ''/a/5/'' ''default'' = Some ''/a/5/default''"
    by code_simp
  note T = nested_route_lookup [OF join, where h = "''h''" and default_handler = "''fallback''"]
  from T [THEN conjunct2, THEN conjunct2, THEN conjunct1]
       T [THEN conjunct2, THEN conjunct2, THEN conjunct2]
  have "Router_get_handler example_lib 0 ''/a/5'' GET
     \<lparr>all_routes =
         [SimpleRoute ''/a/<x>/<y>'' [GET] [(''x'', Conv_str), (''y'', Conv_str)] ''h'',
          NestedRoute ''/a/<x>'' [GET]
            (SimpleRoute ''/a/<x>/<y>'' [GET] [(''x'', Conv_str), (''y'', Conv_str)] ''h'')
            ''default''],
       default_route = [DefaultRoute [] [] [] ''fallback'']\<rparr> =
     Inr (''h'', Some [(''x'', PyStr ''5''), (''y'', PyStr ''default'')])"
    by (rule trans)
  with join show ?thesis by (intro conjI)
qed

theorem nested_route_other_prefix_counterexample:
  "urljoin example_lib ''/short/5/'' ''default'' = Some ''/short/5/default'' \<and>
   Router_add_route 0 ''/short/<x>''
     (RouteObject (SimpleRoute ''/a/<x>/<y>'' [GET] [(''x'', Conv_str), (''y'', Conv_str)] ''h''))
     [GET] [(''y'', ''default'')]
     \<lparr>all_routes = [SimpleRoute ''/a/<x>/<y>'' [GET] [(''x'', Conv_str), (''y'', Conv_str)] ''h''],
      default_route = [DefaultRoute [] [] [] ''fallback'']\<rparr> =
     (Inr (NestedRoute ''/short/<x>'' [GET]
             (SimpleRoute ''/a/<x>/<y>'' [GET] [(''x'', Conv_str), (''y'', Conv_str)] ''h'')
             ''default''),
      \<lparr>all_routes =
         [SimpleRoute ''/a/<x>/<y>'' [GET] [(''x'', Conv_str), (''y'', Conv_str)] ''h'',
          NestedRoute ''/short/<x>'' [GET]
            (SimpleRoute ''/a/<x>/<y>'' [GET] [(''x'', Conv_str), (''y'', Conv_str)] ''h'')
            ''default''],
       default_route = [DefaultRoute [] [] [] ''fallback'']\<rparr>) \<and>
   parse_url ''/a/<x>/<y>'' ''/short/5/default'' = Inl UrlFormatError \<and>
   Router_get_handler example_lib 0 ''/short/5'' GET
     \<lparr>all_routes =
         [SimpleRoute ''/a/<x>/<y>'' [GET] [(''x'', Conv_str), (''y'', Conv_str)] ''h'',
          NestedRoute ''/short/<x>'' [GET]
            (SimpleRoute ''/a/<x>/<y>'' [GET] [(''x'', Conv_str), (''y'', Conv_str)] ''h'')
            ''default''],
       default_route = [DefaultRoute [] [] [] ''fallback'']\<rparr> =
     Inr (''fallback'', None) \<and>
   Route_parse_url example_lib
     (SimpleRoute ''/a/<x>/<y>'' [GET] [(''x'', Conv_str), (''y'', Conv_str)] ''h'')
     ''/a/5/default'' =
     Inr (''h'', Some [(''x'', PyStr ''5''), (''y'', PyStr ''default'')])"
  by code_simp


end
